theory Spec2Isabelle
  imports Main
begin

section \<open>Constants (Common/utils/constants.js)\<close>

abbreviation (input) BOARD_SIZE :: int where "BOARD_SIZE \<equiv> 10"

abbreviation (input) NORTH :: string where "NORTH \<equiv> ''north''"
abbreviation (input) EAST :: string where "EAST \<equiv> ''east''"
abbreviation (input) SOUTH :: string where "SOUTH \<equiv> ''south''"
abbreviation (input) WEST :: string where "WEST \<equiv> ''west''"

definition DIRECTIONS_CLOCKWISE :: "string list" where
  "DIRECTIONS_CLOCKWISE = [NORTH, EAST, SOUTH, WEST]"

abbreviation (input) PORT_ZERO :: int where "PORT_ZERO \<equiv> 0"
abbreviation (input) PORT_ONE :: int where "PORT_ONE \<equiv> 1"

text \<open>
  Every \<open>throw\<close> of the sources, and every failure the absent collaborators are
  specified to have, is a value of this type; a function that can raise returns
  \<open>error + 'a\<close>.
\<close>

datatype error =
    CannotMove             \<comment> \<open>\<open>throw 'Cannot move this way'\<close>\<close>
  | ValueMustBePositive    \<comment> \<open>\<open>throw 'Value must be positive'\<close>\<close>
  | InvalidDirection       \<comment> \<open>\<open>throw 'Invalid direction'\<close>\<close>
  | TypeError              \<comment> \<open>a property read on \<open>undefined\<close>\<close>
  | NotFound
  | OccupiedCoordinate
  | InfiniteLoopDetected

section \<open>Coords (grid coordinates)\<close>

text \<open>
  The cached \<open>_hash\<close> field is recomputed from \<open>x\<close> and \<open>y\<close> after every change
  and read by nothing modelled here, so a coordinate is its two numbers.
\<close>

record coords =
  x :: int
  y :: int

definition isValidCoordinate :: "int \<Rightarrow> bool" where
  "isValidCoordinate v = (v \<ge> 0 \<and> v < BOARD_SIZE)"

text \<open>
  \<open>_moveAlongAxis\<close> throws before it assigns, so a failed move leaves the receiver as
  it was; a successful one returns the receiver with the one component replaced.
\<close>

definition moveAlongAxis :: "coords \<Rightarrow> int \<Rightarrow> bool \<Rightarrow> bool \<Rightarrow> error + coords" where
  "moveAlongAxis c v isHorizontalMove isPositive =
     (let multiplier = (if isPositive then 1 else - 1);
          newVal = (if isHorizontalMove then x c else y c) + multiplier * v
      in if \<not> isValidCoordinate newVal then Inl CannotMove
         else Inr (if isHorizontalMove then c\<lparr>x := newVal\<rparr> else c\<lparr>y := newVal\<rparr>))"

definition move :: "coords \<Rightarrow> string \<Rightarrow> int \<Rightarrow> error + coords" where
  "move c d v =
     (if v < 0 then Inl ValueMustBePositive
      else if v > 0 then
        (if d = NORTH \<or> d = SOUTH then moveAlongAxis c v False (d = SOUTH)
         else if d = EAST \<or> d = WEST then moveAlongAxis c v True (d = EAST)
         else Inl InvalidDirection)
      else Inr c)"

definition moveOne :: "coords \<Rightarrow> string \<Rightarrow> error + coords" where
  "moveOne c d = move c d 1"

definition coords_isEqualTo :: "coords \<Rightarrow> coords \<Rightarrow> bool" where
  "coords_isEqualTo a b = (x a = x b \<and> y a = y b)"

subsection \<open>The grid, as the specification words it\<close>

definition on_grid :: "coords \<Rightarrow> bool" where
  "on_grid c = (0 \<le> x c \<and> x c < 10 \<and> 0 \<le> y c \<and> y c < 10)"

definition valid_direction :: "string \<Rightarrow> bool" where
  "valid_direction d = (d = NORTH \<or> d = EAST \<or> d = SOUTH \<or> d = WEST)"

text \<open>
  One grid step: north is towards smaller \<open>y\<close>, south towards larger \<open>y\<close>, east towards
  larger \<open>x\<close>, west towards smaller \<open>x\<close>.
\<close>

definition translate :: "coords \<Rightarrow> string \<Rightarrow> coords" where
  "translate c d =
     (if d = NORTH then \<lparr>x = x c, y = y c - 1\<rparr>
      else if d = SOUTH then \<lparr>x = x c, y = y c + 1\<rparr>
      else if d = EAST then \<lparr>x = x c + 1, y = y c\<rparr>
      else if d = WEST then \<lparr>x = x c - 1, y = y c\<rparr>
      else c)"

section \<open>Position (a port on a tile's edge)\<close>

record position =
  direction :: string
  port :: int

definition reflect :: "position \<Rightarrow> position" where
  "reflect p =
     \<lparr>direction =
        (if direction p = NORTH then SOUTH
         else if direction p = EAST then WEST
         else if direction p = SOUTH then NORTH
         else if direction p = WEST then EAST
         else direction p),
      port = (if port p = PORT_ZERO then PORT_ONE else PORT_ZERO)\<rparr>"

definition position_isEqualTo :: "position \<Rightarrow> position \<Rightarrow> bool" where
  "position_isEqualTo p q = (direction p = direction q \<and> port p = port q)"

text \<open>\<open>Array.prototype.indexOf\<close>: the first index of the element, \<open>-1\<close> when absent.\<close>

fun indexOf :: "'a list \<Rightarrow> 'a \<Rightarrow> int" where
  "indexOf [] a = - 1"
| "indexOf (b # bs) a =
     (if b = a then 0 else (let r = indexOf bs a in if r < 0 then - 1 else r + 1))"

text \<open>
  Modelled from the spec: \<open>utils/incrementIndex\<close> is not among the sources. The spec
  describes rotation as the cyclic relabeling of the side under quarter-turns clockwise,
  so the index advances by the increment and wraps around the array's length.
\<close>

definition incrementIndex :: "int \<Rightarrow> 'a list \<Rightarrow> int \<Rightarrow> int" where
  "incrementIndex idx arr n = (idx + n) mod int (length arr)"

definition position_rotate :: "position \<Rightarrow> int \<Rightarrow> position" where
  "position_rotate p rotations =
     (let idx = indexOf DIRECTIONS_CLOCKWISE (direction p);
          newIdx = incrementIndex idx DIRECTIONS_CLOCKWISE rotations
      in p\<lparr>direction := DIRECTIONS_CLOCKWISE ! nat newIdx\<rparr>)"

section \<open>Path (one curve between two ports of a tile)\<close>

text \<open>
  Modelled from the spec: the \<open>Path\<close> class is not among the sources. The spec
  describes a segment as an unordered pair of edge positions; the tile's render code
  reads its two endpoints as \<open>path.start\<close> and \<open>path.end\<close>. A copy has fresh
  endpoints with the same contents, a rotation rotates both endpoints, equality is
  symmetric in the two endpoints, and the ending position of an endpoint is the other
  endpoint (nothing for a position that is neither).
\<close>

record path =
  path_start :: position
  path_end :: position

definition path_copy :: "path \<Rightarrow> path" where
  "path_copy p = \<lparr>path_start = path_start p, path_end = path_end p\<rparr>"

definition path_rotate :: "path \<Rightarrow> int \<Rightarrow> path" where
  "path_rotate p rotations =
     \<lparr>path_start = position_rotate (path_start p) rotations,
      path_end = position_rotate (path_end p) rotations\<rparr>"

definition path_isEqualTo :: "path \<Rightarrow> path \<Rightarrow> bool" where
  "path_isEqualTo p q =
     ((position_isEqualTo (path_start p) (path_start q) \<and>
       position_isEqualTo (path_end p) (path_end q)) \<or>
      (position_isEqualTo (path_start p) (path_end q) \<and>
       position_isEqualTo (path_end p) (path_start q)))"

definition path_getEndingPosition :: "path \<Rightarrow> position \<Rightarrow> position option" where
  "path_getEndingPosition p pos =
     (if position_isEqualTo (path_start p) pos then Some (path_end p)
      else if position_isEqualTo (path_end p) pos then Some (path_start p)
      else None)"

section \<open>Tile\<close>

text \<open>
  The rendering fields and functions of the tile (\<open>d3Node\<close>, \<open>render\<close>,
  \<open>renderToFile\<close>) take no part in adjudication; a tile is its array of paths.
\<close>

record tile =
  paths :: "path list"

text \<open>
  The remainder operator \<open>%\<close> of the source language truncates towards zero: the
  result has the sign of the dividend.
\<close>

definition js_rem :: "int \<Rightarrow> int \<Rightarrow> int" where
  "js_rem a b = sgn a * (\<bar>a\<bar> mod \<bar>b\<bar>)"

definition tile_rotate :: "tile \<Rightarrow> int \<Rightarrow> tile" where
  "tile_rotate t rotations =
     (let actualRotations = js_rem rotations (int (length DIRECTIONS_CLOCKWISE))
      in if actualRotations > 0
         then t\<lparr>paths := map (\<lambda>p. path_rotate p actualRotations) (paths t)\<rparr>
         else t)"

definition tile_copy :: "tile \<Rightarrow> int \<Rightarrow> tile" where
  "tile_copy t rotations =
     (let tileCopy = \<lparr>paths = map path_copy (paths t)\<rparr>
      in if rotations > 0 then tile_rotate tileCopy rotations else tileCopy)"

text \<open>
  Modelled from the spec: the polyfill \<open>Array.prototype.first\<close> is not among the
  sources. It is used as "the result of the callback on the first element where that
  result is present".
\<close>

fun array_first :: "('a \<Rightarrow> 'b option) \<Rightarrow> 'a list \<Rightarrow> 'b option" where
  "array_first f [] = None"
| "array_first f (a # as) = (case f a of Some r \<Rightarrow> Some r | None \<Rightarrow> array_first f as)"

text \<open>
  The spec has \<open>endingPosition\<close> fail with \<open>NotFound\<close> when the entry position is
  no endpoint of any path of the tile.
\<close>

definition tile_getEndingPosition :: "tile \<Rightarrow> position \<Rightarrow> error + position" where
  "tile_getEndingPosition t pos =
     (case array_first (\<lambda>p. path_getEndingPosition p pos) (paths t) of
        None \<Rightarrow> Inl NotFound
      | Some e \<Rightarrow> Inr e)"

definition tile_isEqualTo :: "tile \<Rightarrow> tile \<Rightarrow> bool" where
  "tile_isEqualTo a b =
     list_all (\<lambda>p. list_ex (\<lambda>otherPath. path_isEqualTo otherPath p) (paths b)) (paths a)"

definition isEqualToRotated :: "tile \<Rightarrow> tile \<Rightarrow> bool" where
  "isEqualToRotated a b =
     (tile_isEqualTo a b \<or>
      tile_isEqualTo a (tile_copy b 1) \<or>
      tile_isEqualTo a (tile_copy b 2) \<or>
      tile_isEqualTo a (tile_copy b 3))"

subsection \<open>The tile invariant and segment sets, as the specification words them\<close>

definition all_ports :: "position list" where
  "all_ports =
     [\<lparr>direction = NORTH, port = 0\<rparr>, \<lparr>direction = NORTH, port = 1\<rparr>,
      \<lparr>direction = EAST, port = 0\<rparr>, \<lparr>direction = EAST, port = 1\<rparr>,
      \<lparr>direction = SOUTH, port = 0\<rparr>, \<lparr>direction = SOUTH, port = 1\<rparr>,
      \<lparr>direction = WEST, port = 0\<rparr>, \<lparr>direction = WEST, port = 1\<rparr>]"

definition endpoints :: "tile \<Rightarrow> position list" where
  "endpoints t = concat (map (\<lambda>p. [path_start p, path_end p]) (paths t))"

text \<open>Exactly 4 segments, and every one of the 8 ports is an endpoint exactly once.\<close>

definition tile_invariant :: "tile \<Rightarrow> bool" where
  "tile_invariant t =
     (length (paths t) = 4 \<and> distinct (endpoints t) \<and> set (endpoints t) = set all_ports)"

text \<open>A segment as an unordered pair, and the segment set of a tile.\<close>

definition segment :: "path \<Rightarrow> position set" where
  "segment p = {path_start p, path_end p}"

definition segments :: "tile \<Rightarrow> position set set" where
  "segments t = segment ` set (paths t)"

section \<open>Board state, players and tile placements\<close>

text \<open>
  Modelled from the spec: the classes \<open>BoardState\<close>, \<open>Avatar\<close>, \<open>Player\<close> and the
  tile placement are not among the sources. The rule checker reads an avatar's
  \<open>coords\<close> and \<open>position\<close>, a player's \<open>id\<close> and \<open>hand\<close>, and a placement's
  \<open>tile\<close> and \<open>coords\<close>. The spec describes the board state as a sparse mapping from
  coordinate to placed tile plus a mapping from player identifier to avatar, with
  lookups that return an absent result rather than failing.
\<close>

record avatar =
  av_coords :: coords
  av_position :: position

record player =
  player_id :: string
  hand :: "tile list"

record tilePlacement =
  tp_tile :: tile
  tp_coords :: coords

record boardState =
  tiles :: "(coords \<times> tile) list"
  avatars :: "(string \<times> avatar) list"

definition getAvatar :: "boardState \<Rightarrow> string \<Rightarrow> avatar option" where
  "getAvatar s pid = map_of (avatars s) pid"

definition getTile :: "boardState \<Rightarrow> coords \<Rightarrow> tile option" where
  "getTile s c = map_of (tiles s) c"

text \<open>
  Modelled from the spec: \<open>hasNeighboringTiles\<close> is true if any of the 4 orthogonal
  neighbour coordinates holds a tile.
\<close>

definition hasNeighboringTiles :: "boardState \<Rightarrow> coords \<Rightarrow> bool" where
  "hasNeighboringTiles s c =
     list_ex (\<lambda>d. getTile s (translate c d) \<noteq> None) DIRECTIONS_CLOCKWISE"

text \<open>
  Modelled from the spec: \<open>Board.isAvatarOnOutsidePosition\<close> is true iff the exit of
  the position at that coordinate would leave the grid.
\<close>

definition isAvatarOnOutsidePosition :: "coords \<Rightarrow> position \<Rightarrow> bool" where
  "isAvatarOnOutsidePosition c p = (\<not> on_grid (translate c (direction p)))"

text \<open>
  Modelled from the spec: \<open>BoardState.copy\<close> deep-clones the tile mapping and the
  avatar mapping. On values a deep clone is the same value.
\<close>

definition boardState_copy :: "boardState \<Rightarrow> boardState" where
  "boardState_copy s = \<lparr>tiles = tiles s, avatars = avatars s\<rparr>"

text \<open>
  \<open>Board.placeTile\<close> is not among the sources. The rule checker takes it as a
  parameter: given the state a \<open>Board\<close> was built on, the tile and the coordinate, it
  either raises or gives the board's state after the placement and the avatar movement
  that follows it.
\<close>

type_synonym placeTile_fn = "boardState \<Rightarrow> tile \<Rightarrow> coords \<Rightarrow> error + boardState"

section \<open>Rule checker\<close>

text \<open>
  The value of a chain \<open>a && b && ...\<close> whose first operand may be \<open>undefined\<close> and
  whose other operands are booleans.
\<close>

datatype js_value = Undefined | Bool bool

fun truthy :: "js_value \<Rightarrow> bool" where
  "truthy Undefined = False"
| "truthy (Bool b) = b"

definition checkPlayerAdjacency :: "avatar option \<Rightarrow> tilePlacement \<Rightarrow> bool" where
  "checkPlayerAdjacency av tilePlacement =
     (case av of
        None \<Rightarrow> False
      | Some a \<Rightarrow>
          (case moveOne (av_coords a) (direction (av_position a)) of
             Inl e \<Rightarrow> False
           | Inr newCoords \<Rightarrow> coords_isEqualTo newCoords (tp_coords tilePlacement)))"

definition checkPlacementLegality :: "boardState \<Rightarrow> tilePlacement \<Rightarrow> player \<Rightarrow> js_value" where
  "checkPlacementLegality s tilePlacement pl =
     (case getAvatar s (player_id pl) of
        None \<Rightarrow> Undefined
      | Some a \<Rightarrow>
          Bool (getTile s (tp_coords tilePlacement) = None \<and>
                checkPlayerAdjacency (Some a) tilePlacement \<and>
                list_ex (\<lambda>t. isEqualToRotated t (tp_tile tilePlacement)) (hand pl)))"

text \<open>
  Reading \<open>avatarCopy.coords\<close> when the board copy has no avatar for the player is a
  \<open>TypeError\<close>.
\<close>

definition checkPlacementValidity ::
  "placeTile_fn \<Rightarrow> boardState \<Rightarrow> tilePlacement \<Rightarrow> player \<Rightarrow> error + bool" where
  "checkPlacementValidity placeTile s tilePlacement pl =
     (case placeTile (boardState_copy s) (tp_tile tilePlacement) (tp_coords tilePlacement) of
        Inl e \<Rightarrow> Inl e
      | Inr boardCopy \<Rightarrow>
          (case getAvatar boardCopy (player_id pl) of
             None \<Rightarrow> Inl TypeError
           | Some avatarCopy \<Rightarrow>
               Inr (\<not> isAvatarOnOutsidePosition (av_coords avatarCopy)
                        (av_position avatarCopy))))"

text \<open>
  The loop \<open>for (let j = 0; j < 4; j++)\<close> of \<open>_doesPlayerHaveValidMove\<close>, over the
  rotations still to try: it returns true at the first rotation that keeps the player
  alive, false when none is left, and an exception leaves it at once.
\<close>

fun testRotations ::
  "placeTile_fn \<Rightarrow> boardState \<Rightarrow> coords \<Rightarrow> string \<Rightarrow> tile \<Rightarrow> int list \<Rightarrow> error + bool" where
  "testRotations placeTile s c pid t [] = Inr False"
| "testRotations placeTile s c pid t (j # js) =
     (case placeTile (boardState_copy s) (tile_copy t j) c of
        Inl e \<Rightarrow> Inl e
      | Inr boardCopy \<Rightarrow>
          (case getAvatar boardCopy pid of
             None \<Rightarrow> Inl TypeError
           | Some avatarCopy \<Rightarrow>
               if \<not> isAvatarOnOutsidePosition (av_coords avatarCopy) (av_position avatarCopy)
               then Inr True
               else testRotations placeTile s c pid t js))"

text \<open>
  \<open>Array.prototype.some\<close> with a callback that can raise: elements are tried in order
  up to the first that gives true.
\<close>

fun array_some :: "('a \<Rightarrow> error + bool) \<Rightarrow> 'a list \<Rightarrow> error + bool" where
  "array_some f [] = Inr False"
| "array_some f (a # as) =
     (case f a of
        Inl e \<Rightarrow> Inl e
      | Inr b \<Rightarrow> if b then Inr True else array_some f as)"

definition doesPlayerHaveValidMove ::
  "placeTile_fn \<Rightarrow> boardState \<Rightarrow> coords \<Rightarrow> player \<Rightarrow> error + bool" where
  "doesPlayerHaveValidMove placeTile s c pl =
     array_some (\<lambda>t. testRotations placeTile s c (player_id pl) t [0, 1, 2, 3]) (hand pl)"

definition checkHandValidity ::
  "placeTile_fn \<Rightarrow> boardState \<Rightarrow> tilePlacement \<Rightarrow> player \<Rightarrow> error + bool" where
  "checkHandValidity placeTile s tilePlacement pl =
     (case checkPlacementValidity placeTile s tilePlacement pl of
        Inl e \<Rightarrow> Inl e
      | Inr b \<Rightarrow>
          if b then Inr True
          else doesPlayerHaveValidMove placeTile s (tp_coords tilePlacement) pl)"

definition canTakeAction ::
  "placeTile_fn \<Rightarrow> boardState \<Rightarrow> tilePlacement \<Rightarrow> player \<Rightarrow> error + bool" where
  "canTakeAction placeTile s tilePlacement pl =
     (if truthy (checkPlacementLegality s tilePlacement pl)
      then checkHandValidity placeTile s tilePlacement pl
      else Inr False)"

text \<open>
  \<open>getEndingPosition\<close> is called outside the \<open>try\<close>, so its failure leaves
  \<open>checkIsMoveOnBoard\<close>; a failed \<open>moveOne\<close> is caught and gives false.
\<close>

definition checkIsMoveOnBoard :: "coords \<Rightarrow> tile \<Rightarrow> position \<Rightarrow> error + bool" where
  "checkIsMoveOnBoard c t pos =
     (case tile_getEndingPosition t pos of
        Inl e \<Rightarrow> Inl e
      | Inr ending \<Rightarrow>
          (case moveOne c (direction ending) of
             Inl e \<Rightarrow> Inr False
           | Inr moved \<Rightarrow> Inr True))"

definition canPlaceAvatar ::
  "boardState \<Rightarrow> string \<Rightarrow> coords \<Rightarrow> tile \<Rightarrow> position \<Rightarrow> error + bool" where
  "canPlaceAvatar s playerId c t pos =
     (if isAvatarOnOutsidePosition c pos \<and>
         getAvatar s playerId = None \<and>
         getTile s c = None \<and>
         \<not> hasNeighboringTiles s c
      then checkIsMoveOnBoard c t pos
      else Inr False)"

section \<open>A board to run the rule checker on\<close>

text \<open>
  Modelled from the spec: \<open>Board.placeTile\<close> is not among the sources. The spec has it
  fail with \<open>OccupiedCoordinate\<close> if a tile already exists at the coordinate; after the
  placement every avatar that faces the new tile is moved, one hop at a time: translate
  the coordinate one step in the direction of the avatar's port; if that leaves the
  grid the avatar is eliminated (removed from the mapping); if the destination holds no
  tile the avatar rests where it is; otherwise it enters the destination tile at the
  reflection of its port and goes to the other end of that path, and the loop repeats.
  Iterations are bounded, and the loop fails with \<open>InfiniteLoopDetected\<close> beyond the
  bound; the bound here is one more than the number of ports of all placed tiles.
\<close>

fun moveAvatar :: "nat \<Rightarrow> (coords \<times> tile) list \<Rightarrow> avatar \<Rightarrow> error + avatar option" where
  "moveAvatar 0 ts av = Inl InfiniteLoopDetected"
| "moveAvatar (Suc fuel) ts av =
     (case moveOne (av_coords av) (direction (av_position av)) of
        Inl e \<Rightarrow> Inr None
      | Inr dest \<Rightarrow>
          (case map_of ts dest of
             None \<Rightarrow> Inr (Some av)
           | Some t \<Rightarrow>
               (case tile_getEndingPosition t (reflect (av_position av)) of
                  Inl e \<Rightarrow> Inl e
                | Inr out \<Rightarrow> moveAvatar fuel ts \<lparr>av_coords = dest, av_position = out\<rparr>)))"

fun updateAvatars ::
  "nat \<Rightarrow> (coords \<times> tile) list \<Rightarrow> coords \<Rightarrow> (string \<times> avatar) list \<Rightarrow>
   error + (string \<times> avatar) list" where
  "updateAvatars fuel ts c [] = Inr []"
| "updateAvatars fuel ts c ((pid, av) # rest) =
     (case (if moveOne (av_coords av) (direction (av_position av)) = Inr c
            then moveAvatar fuel ts av else Inr (Some av)) of
        Inl e \<Rightarrow> Inl e
      | Inr moved \<Rightarrow>
          (case updateAvatars fuel ts c rest of
             Inl e \<Rightarrow> Inl e
           | Inr rest' \<Rightarrow>
               Inr (case moved of None \<Rightarrow> rest' | Some av' \<Rightarrow> (pid, av') # rest')))"

definition Board_placeTile :: placeTile_fn where
  "Board_placeTile s t c =
     (if getTile s c \<noteq> None then Inl OccupiedCoordinate
      else
        (let ts = (c, t) # tiles s
         in case updateAvatars (Suc (8 * length ts)) ts c (avatars s) of
              Inl e \<Rightarrow> Inl e
            | Inr avs \<Rightarrow> Inr \<lparr>tiles = ts, avatars = avs\<rparr>))"

text \<open>
  Modelled from the spec: the board as the rule checker reads it. \<open>checkPlacementValidity\<close>
  looks the player's avatar up on the board copy after \<open>placeTile\<close> and asks
  \<open>isAvatarOnOutsidePosition\<close> of its coordinate and position; the spec words this as the
  avatar, after movement simulation, being in the outside-edge condition, with the
  elimination predicate evaluated against the post-placement copy. That reading has an
  answer only if an avatar whose next step leaves the grid is still in the mapping,
  standing on the port that points off the grid. \<open>Board_placeTile_kept\<close> is
  \<open>Board_placeTile\<close> with that one difference: the hop that would leave the grid stops
  the avatar where it is instead of removing it.
\<close>

fun moveAvatar_kept :: "nat \<Rightarrow> (coords \<times> tile) list \<Rightarrow> avatar \<Rightarrow> error + avatar" where
  "moveAvatar_kept 0 ts av = Inl InfiniteLoopDetected"
| "moveAvatar_kept (Suc fuel) ts av =
     (case moveOne (av_coords av) (direction (av_position av)) of
        Inl e \<Rightarrow> Inr av
      | Inr dest \<Rightarrow>
          (case map_of ts dest of
             None \<Rightarrow> Inr av
           | Some t \<Rightarrow>
               (case tile_getEndingPosition t (reflect (av_position av)) of
                  Inl e \<Rightarrow> Inl e
                | Inr out \<Rightarrow> moveAvatar_kept fuel ts \<lparr>av_coords = dest, av_position = out\<rparr>)))"

fun updateAvatars_kept ::
  "nat \<Rightarrow> (coords \<times> tile) list \<Rightarrow> coords \<Rightarrow> (string \<times> avatar) list \<Rightarrow>
   error + (string \<times> avatar) list" where
  "updateAvatars_kept fuel ts c [] = Inr []"
| "updateAvatars_kept fuel ts c ((pid, av) # rest) =
     (case (if moveOne (av_coords av) (direction (av_position av)) = Inr c
            then moveAvatar_kept fuel ts av else Inr av) of
        Inl e \<Rightarrow> Inl e
      | Inr av' \<Rightarrow>
          (case updateAvatars_kept fuel ts c rest of
             Inl e \<Rightarrow> Inl e
           | Inr rest' \<Rightarrow> Inr ((pid, av') # rest')))"

definition Board_placeTile_kept :: placeTile_fn where
  "Board_placeTile_kept s t c =
     (if getTile s c \<noteq> None then Inl OccupiedCoordinate
      else
        (let ts = (c, t) # tiles s
         in case updateAvatars_kept (Suc (8 * length ts)) ts c (avatars s) of
              Inl e \<Rightarrow> Inl e
            | Inr avs \<Rightarrow> Inr \<lparr>tiles = ts, avatars = avs\<rparr>))"

subsection \<open>Example tiles, boards and players\<close>

definition port_at :: "string \<Rightarrow> int \<Rightarrow> position" where
  "port_at d n = \<lparr>direction = d, port = n\<rparr>"

definition path_between :: "position \<Rightarrow> position \<Rightarrow> path" where
  "path_between a b = \<lparr>path_start = a, path_end = b\<rparr>"

text \<open>A tile that satisfies the tile invariant.\<close>

definition tile_curve :: tile where
  "tile_curve =
     \<lparr>paths = [path_between (port_at NORTH 0) (port_at EAST 1), path_between (port_at NORTH 1) (port_at SOUTH 0),
               path_between (port_at EAST 0) (port_at WEST 0), path_between (port_at SOUTH 1) (port_at WEST 1)]\<rparr>"

text \<open>
  A tile that satisfies the tile invariant and is the same tile in each of its four
  rotations: port 0 of every side leads to port 1 of the next side clockwise.
\<close>

definition tile_pinwheel :: tile where
  "tile_pinwheel =
     \<lparr>paths = [path_between (port_at NORTH 0) (port_at EAST 1), path_between (port_at EAST 0) (port_at SOUTH 1),
               path_between (port_at SOUTH 0) (port_at WEST 1), path_between (port_at WEST 0) (port_at NORTH 1)]\<rparr>"

definition player_one :: player where
  "player_one = \<lparr>player_id = ''jim'', hand = [tile_curve]\<rparr>"

definition player_pinwheel :: player where
  "player_pinwheel = \<lparr>player_id = ''jim'', hand = [tile_pinwheel]\<rparr>"

text \<open>
  The player's avatar stands on the tile at (0,0), at the east port 1, facing the empty
  cell (1,0).
\<close>

definition board_facing_east :: boardState where
  "board_facing_east =
     \<lparr>tiles = [(\<lparr>x = 0, y = 0\<rparr>, tile_curve)],
      avatars = [(''jim'', \<lparr>av_coords = \<lparr>x = 0, y = 0\<rparr>, av_position = port_at EAST 1\<rparr>)]\<rparr>"


text \<open>
  The player's avatar stands on the tile at (0,0), at the north port 0: its port points
  off the grid, and no placement moves it.
\<close>

definition board_on_edge :: boardState where
  "board_on_edge =
     \<lparr>tiles = [(\<lparr>x = 0, y = 0\<rparr>, tile_curve)],
      avatars = [(''jim'', \<lparr>av_coords = \<lparr>x = 0, y = 0\<rparr>, av_position = port_at NORTH 0\<rparr>)]\<rparr>"

definition place_east :: tilePlacement where
  "place_east = \<lparr>tp_tile = tile_curve, tp_coords = \<lparr>x = 1, y = 0\<rparr>\<rparr>"

text \<open>The same tile, copied with three rotations, at the same coordinate.\<close>

definition place_east_turned :: tilePlacement where
  "place_east_turned = \<lparr>tp_tile = tile_copy tile_curve 3, tp_coords = \<lparr>x = 1, y = 0\<rparr>\<rparr>"

definition place_east_pinwheel :: tilePlacement where
  "place_east_pinwheel = \<lparr>tp_tile = tile_pinwheel, tp_coords = \<lparr>x = 1, y = 0\<rparr>\<rparr>"


definition place_occupied :: tilePlacement where
  "place_occupied = \<lparr>tp_tile = tile_curve, tp_coords = \<lparr>x = 0, y = 0\<rparr>\<rparr>"

text \<open>The same tile, its paths in another order and each path the other way round.\<close>

definition tile_curve_flipped :: tile where
  "tile_curve_flipped =
     \<lparr>paths = [path_between (port_at WEST 1) (port_at SOUTH 1), path_between (port_at WEST 0) (port_at EAST 0),
               path_between (port_at SOUTH 0) (port_at NORTH 1), path_between (port_at EAST 1) (port_at NORTH 0)]\<rparr>"

definition board_empty :: boardState where
  "board_empty = \<lparr>tiles = [], avatars = []\<rparr>"

subsection \<open>The notions the claims about the rule checker are worded in\<close>

text \<open>
  The placement of a hand tile, copied with \<open>k\<close> rotations, at a coordinate: what
  \<open>_doesPlayerHaveValidMove\<close> simulates for each tile of the hand and each \<open>k\<close> from 0
  to 3.
\<close>

definition rotatedPlacement :: "tile \<Rightarrow> int \<Rightarrow> coords \<Rightarrow> tilePlacement" where
  "rotatedPlacement t k c = \<lparr>tp_tile = tile_copy t k, tp_coords = c\<rparr>"

text \<open>Every avatar of the board state stands on a coordinate of the grid.\<close>

definition avatars_on_grid :: "boardState \<Rightarrow> bool" where
  "avatars_on_grid s = list_all (\<lambda>(pid, a). on_grid (av_coords a)) (avatars s)"

section \<open>The rule checker on a store of objects\<close>

text \<open>
  The functions above compute on values and cannot say what a call does to the objects
  it is given. This second model of the same code keeps every object in a store, one
  array of cells per class, and a reference is an index into the array of its class.
  \<open>copy\<close> allocates new cells; \<open>moveOne\<close>, \<open>rotate\<close> and \<open>placeTile\<close> overwrite
  the cells of their receiver in place; an exception leaves the store as it is at the
  throw. A path holds the references of its two positions, a tile the references of its
  paths, an avatar the references of its coordinate and its position, and a board state
  its tile mapping (from the coordinate's value to a tile reference) and its avatar
  mapping (from the player's id to an avatar reference).
\<close>

type_synonym ref = nat

record heap =
  coords_objs :: "coords list"
  position_objs :: "position list"
  path_objs :: "(ref \<times> ref) list"
  tile_objs :: "ref list list"
  avatar_objs :: "(ref \<times> ref) list"
  state_objs :: "((coords \<times> ref) list \<times> (string \<times> ref) list) list"

type_synonym 'a hm = "heap \<Rightarrow> (error + 'a) \<times> heap"

definition h_return :: "'a \<Rightarrow> 'a hm" where
  "h_return a h = (Inr a, h)"

definition h_throw :: "error \<Rightarrow> 'a hm" where
  "h_throw e h = (Inl e, h)"

definition h_bind :: "'a hm \<Rightarrow> ('a \<Rightarrow> 'b hm) \<Rightarrow> 'b hm" where
  "h_bind m f h = (case m h of (Inl e, h') \<Rightarrow> (Inl e, h') | (Inr a, h') \<Rightarrow> f a h')"

definition h_catch :: "'a hm \<Rightarrow> (error \<Rightarrow> 'a hm) \<Rightarrow> 'a hm" where
  "h_catch m f h = (case m h of (Inl e, h') \<Rightarrow> f e h' | (Inr a, h') \<Rightarrow> (Inr a, h'))"

text \<open>Reading a field through a reference that denotes no object is a \<open>TypeError\<close>.\<close>

definition h_read :: "(heap \<Rightarrow> 'a list) \<Rightarrow> ref \<Rightarrow> 'a hm" where
  "h_read sel r h = (if r < length (sel h) then (Inr (sel h ! r), h) else (Inl TypeError, h))"

definition new_coords :: "coords \<Rightarrow> ref hm" where
  "new_coords c h = (Inr (length (coords_objs h)), h\<lparr>coords_objs := coords_objs h @ [c]\<rparr>)"

definition new_position :: "position \<Rightarrow> ref hm" where
  "new_position p h =
     (Inr (length (position_objs h)), h\<lparr>position_objs := position_objs h @ [p]\<rparr>)"

definition new_path :: "ref \<times> ref \<Rightarrow> ref hm" where
  "new_path p h = (Inr (length (path_objs h)), h\<lparr>path_objs := path_objs h @ [p]\<rparr>)"

definition new_tile :: "ref list \<Rightarrow> ref hm" where
  "new_tile ps h = (Inr (length (tile_objs h)), h\<lparr>tile_objs := tile_objs h @ [ps]\<rparr>)"

definition new_avatar :: "ref \<times> ref \<Rightarrow> ref hm" where
  "new_avatar a h = (Inr (length (avatar_objs h)), h\<lparr>avatar_objs := avatar_objs h @ [a]\<rparr>)"

definition new_state :: "(coords \<times> ref) list \<times> (string \<times> ref) list \<Rightarrow> ref hm" where
  "new_state s h = (Inr (length (state_objs h)), h\<lparr>state_objs := state_objs h @ [s]\<rparr>)"

definition write_coords :: "ref \<Rightarrow> coords \<Rightarrow> unit hm" where
  "write_coords r c h =
     (if r < length (coords_objs h)
      then (Inr (), h\<lparr>coords_objs := (coords_objs h)[r := c]\<rparr>)
      else (Inl TypeError, h))"

definition write_position :: "ref \<Rightarrow> position \<Rightarrow> unit hm" where
  "write_position r p h =
     (if r < length (position_objs h)
      then (Inr (), h\<lparr>position_objs := (position_objs h)[r := p]\<rparr>)
      else (Inl TypeError, h))"

definition write_tile :: "ref \<Rightarrow> ref list \<Rightarrow> unit hm" where
  "write_tile r ps h =
     (if r < length (tile_objs h)
      then (Inr (), h\<lparr>tile_objs := (tile_objs h)[r := ps]\<rparr>)
      else (Inl TypeError, h))"

definition write_state ::
  "ref \<Rightarrow> (coords \<times> ref) list \<times> (string \<times> ref) list \<Rightarrow> unit hm" where
  "write_state r s h =
     (if r < length (state_objs h)
      then (Inr (), h\<lparr>state_objs := (state_objs h)[r := s]\<rparr>)
      else (Inl TypeError, h))"

text \<open>A callback applied to the elements of an array in order (\<open>map\<close>, \<open>forEach\<close>).\<close>

fun mapM_h :: "('a \<Rightarrow> 'b hm) \<Rightarrow> 'a list \<Rightarrow> 'b list hm" where
  "mapM_h f [] h = (Inr [], h)"
| "mapM_h f (a # as) h =
     (case f a h of
        (Inl e, h') \<Rightarrow> (Inl e, h')
      | (Inr b, h') \<Rightarrow>
          (case mapM_h f as h' of
             (Inl e, h'') \<Rightarrow> (Inl e, h'')
           | (Inr bs, h'') \<Rightarrow> (Inr (b # bs), h'')))"

fun some_h :: "('a \<Rightarrow> bool hm) \<Rightarrow> 'a list \<Rightarrow> bool hm" where
  "some_h f [] h = (Inr False, h)"
| "some_h f (a # as) h =
     (case f a h of
        (Inl e, h') \<Rightarrow> (Inl e, h')
      | (Inr b, h') \<Rightarrow> if b then (Inr True, h') else some_h f as h')"

subsection \<open>Coords and Position objects\<close>

definition coords_copy_h :: "ref \<Rightarrow> ref hm" where
  "coords_copy_h r = h_bind (h_read coords_objs r) new_coords"

text \<open>\<open>moveOne\<close> overwrites the receiver and returns it.\<close>

definition moveOne_h :: "ref \<Rightarrow> string \<Rightarrow> ref hm" where
  "moveOne_h r d =
     h_bind (h_read coords_objs r) (\<lambda>c.
       case moveOne c d of
         Inl e \<Rightarrow> h_throw e
       | Inr c' \<Rightarrow> h_bind (write_coords r c') (\<lambda>u. h_return r))"

definition position_copy_h :: "ref \<Rightarrow> ref hm" where
  "position_copy_h r = h_bind (h_read position_objs r) new_position"

definition position_rotate_h :: "ref \<Rightarrow> int \<Rightarrow> unit hm" where
  "position_rotate_h r rotations =
     h_bind (h_read position_objs r) (\<lambda>p. write_position r (position_rotate p rotations))"

subsection \<open>Path and Tile objects\<close>

text \<open>
  Modelled from the spec: the \<open>Path\<close> class is not among the sources. A copy of a path
  has copies of its two positions (the spec: no aliasing of segments with the source),
  and a rotation rotates its two positions in place.
\<close>

definition path_copy_h :: "ref \<Rightarrow> ref hm" where
  "path_copy_h p =
     h_bind (h_read path_objs p) (\<lambda>(s, e).
     h_bind (position_copy_h s) (\<lambda>s'.
     h_bind (position_copy_h e) (\<lambda>e'.
     new_path (s', e'))))"

definition path_rotate_h :: "int \<Rightarrow> ref \<Rightarrow> unit hm" where
  "path_rotate_h rotations p =
     h_bind (h_read path_objs p) (\<lambda>(s, e).
     h_bind (position_rotate_h s rotations) (\<lambda>u.
     position_rotate_h e rotations))"

definition path_value_h :: "ref \<Rightarrow> path hm" where
  "path_value_h p =
     h_bind (h_read path_objs p) (\<lambda>(s, e).
     h_bind (h_read position_objs s) (\<lambda>ps.
     h_bind (h_read position_objs e) (\<lambda>pe.
     h_return \<lparr>path_start = ps, path_end = pe\<rparr>)))"

text \<open>
  \<open>Tile.rotate\<close> rotates every path of the receiver in place and assigns the mapped
  array (the same paths) to the receiver's \<open>paths\<close>.
\<close>

definition tile_rotate_h :: "ref \<Rightarrow> int \<Rightarrow> unit hm" where
  "tile_rotate_h t rotations =
     (let actualRotations = js_rem rotations (int (length DIRECTIONS_CLOCKWISE))
      in if actualRotations > 0
         then h_bind (h_read tile_objs t) (\<lambda>ps.
              h_bind (mapM_h (path_rotate_h actualRotations) ps) (\<lambda>us.
              write_tile t ps))
         else h_return ())"

definition tile_copy_h :: "ref \<Rightarrow> int \<Rightarrow> ref hm" where
  "tile_copy_h t rotations =
     h_bind (h_read tile_objs t) (\<lambda>ps.
     h_bind (mapM_h path_copy_h ps) (\<lambda>ps'.
     h_bind (new_tile ps') (\<lambda>tileCopy.
     if rotations > 0
     then h_bind (tile_rotate_h tileCopy rotations) (\<lambda>u. h_return tileCopy)
     else h_return tileCopy)))"

text \<open>The paths of a tile object, read off the store.\<close>

definition tile_value_h :: "ref \<Rightarrow> tile hm" where
  "tile_value_h t =
     h_bind (h_read tile_objs t) (\<lambda>ps.
     h_bind (mapM_h path_value_h ps) (\<lambda>vs.
     h_return \<lparr>paths = vs\<rparr>))"

definition tile_isEqualTo_h :: "ref \<Rightarrow> ref \<Rightarrow> bool hm" where
  "tile_isEqualTo_h a b =
     h_bind (tile_value_h a) (\<lambda>va.
     h_bind (tile_value_h b) (\<lambda>vb.
     h_return (tile_isEqualTo va vb)))"

definition isEqualToRotated_h :: "ref \<Rightarrow> ref \<Rightarrow> bool hm" where
  "isEqualToRotated_h a b =
     h_bind (tile_isEqualTo_h a b) (\<lambda>r0. if r0 then h_return True else
     h_bind (tile_copy_h b 1) (\<lambda>c1.
     h_bind (tile_isEqualTo_h a c1) (\<lambda>r1. if r1 then h_return True else
     h_bind (tile_copy_h b 2) (\<lambda>c2.
     h_bind (tile_isEqualTo_h a c2) (\<lambda>r2. if r2 then h_return True else
     h_bind (tile_copy_h b 3) (\<lambda>c3.
     tile_isEqualTo_h a c3))))))"

definition tile_getEndingPosition_h :: "ref \<Rightarrow> ref \<Rightarrow> position hm" where
  "tile_getEndingPosition_h t p =
     h_bind (tile_value_h t) (\<lambda>v.
     h_bind (h_read position_objs p) (\<lambda>pv.
     case tile_getEndingPosition v pv of
       Inl e \<Rightarrow> h_throw e
     | Inr ending \<Rightarrow> h_return ending))"

subsection \<open>BoardState and Board objects\<close>

text \<open>
  Modelled from the spec: \<open>BoardState.copy\<close> deep-clones the tile mapping and the
  avatar mapping, with no shared mutable structure with the original: every tile and
  every avatar (with its coordinate and its position) is copied.
\<close>

definition avatar_copy_h :: "ref \<Rightarrow> ref hm" where
  "avatar_copy_h a =
     h_bind (h_read avatar_objs a) (\<lambda>(c, p).
     h_bind (coords_copy_h c) (\<lambda>c'.
     h_bind (position_copy_h p) (\<lambda>p'.
     new_avatar (c', p'))))"

definition boardState_copy_h :: "ref \<Rightarrow> ref hm" where
  "boardState_copy_h st =
     h_bind (h_read state_objs st) (\<lambda>(ts, avs).
     h_bind (mapM_h (\<lambda>(c, t). h_bind (tile_copy_h t 0) (\<lambda>t'. h_return (c, t'))) ts) (\<lambda>ts'.
     h_bind (mapM_h (\<lambda>(pid, a). h_bind (avatar_copy_h a) (\<lambda>a'. h_return (pid, a'))) avs)
       (\<lambda>avs'.
     new_state (ts', avs'))))"

definition getAvatar_h :: "ref \<Rightarrow> string \<Rightarrow> ref option hm" where
  "getAvatar_h st pid =
     h_bind (h_read state_objs st) (\<lambda>(ts, avs). h_return (map_of avs pid))"

definition getTile_h :: "ref \<Rightarrow> ref \<Rightarrow> ref option hm" where
  "getTile_h st c =
     h_bind (h_read state_objs st) (\<lambda>(ts, avs).
     h_bind (h_read coords_objs c) (\<lambda>cv.
     h_return (map_of ts cv)))"

definition hasNeighboringTiles_h :: "ref \<Rightarrow> ref \<Rightarrow> bool hm" where
  "hasNeighboringTiles_h st c =
     h_bind (h_read state_objs st) (\<lambda>(ts, avs).
     h_bind (h_read coords_objs c) (\<lambda>cv.
     h_return (list_ex (\<lambda>d. map_of ts (translate cv d) \<noteq> None) DIRECTIONS_CLOCKWISE)))"

definition isAvatarOnOutsidePosition_h :: "ref \<Rightarrow> ref \<Rightarrow> bool hm" where
  "isAvatarOnOutsidePosition_h c p =
     h_bind (h_read coords_objs c) (\<lambda>cv.
     h_bind (h_read position_objs p) (\<lambda>pv.
     h_return (isAvatarOnOutsidePosition cv pv)))"

text \<open>
  Modelled from the spec: \<open>Board.placeTile\<close>, on the state object the board was built
  on. It adds the tile to the state's tile mapping and moves the avatars of the state in
  place: the coordinate and the position of a moved avatar are overwritten, and an
  eliminated avatar is removed from the state's avatar mapping. The movement itself is
  \<open>moveAvatar\<close> on the values read off the store; \<open>moveAvatar_h\<close> moves one avatar
  and tells whether it is still on the board.
\<close>

definition moveAvatar_h :: "nat \<Rightarrow> (coords \<times> tile) list \<Rightarrow> coords \<Rightarrow> ref \<Rightarrow> bool hm" where
  "moveAvatar_h fuel tvs c a =
     h_bind (h_read avatar_objs a) (\<lambda>(cr, pr).
     h_bind (h_read coords_objs cr) (\<lambda>cv.
     h_bind (h_read position_objs pr) (\<lambda>pv.
     case (if moveOne cv (direction pv) = Inr c
           then moveAvatar fuel tvs \<lparr>av_coords = cv, av_position = pv\<rparr>
           else Inr (Some \<lparr>av_coords = cv, av_position = pv\<rparr>)) of
       Inl e \<Rightarrow> h_throw e
     | Inr None \<Rightarrow> h_return False
     | Inr (Some av') \<Rightarrow>
         h_bind (write_coords cr (av_coords av')) (\<lambda>u.
         h_bind (write_position pr (av_position av')) (\<lambda>u.
         h_return True)))))"

text \<open>The avatar mapping after the movement: the avatars that were not eliminated.\<close>

fun updateAvatars_h ::
  "nat \<Rightarrow> (coords \<times> tile) list \<Rightarrow> coords \<Rightarrow> (string \<times> ref) list \<Rightarrow>
   (string \<times> ref) list hm" where
  "updateAvatars_h fuel tvs c [] h = (Inr [], h)"
| "updateAvatars_h fuel tvs c ((pid, a) # rest) h =
     (case moveAvatar_h fuel tvs c a h of
        (Inl e, h') \<Rightarrow> (Inl e, h')
      | (Inr kept, h') \<Rightarrow>
          (case updateAvatars_h fuel tvs c rest h' of
             (Inl e, h'') \<Rightarrow> (Inl e, h'')
           | (Inr rest', h'') \<Rightarrow> (Inr (if kept then (pid, a) # rest' else rest'), h'')))"

definition placeTile_h :: "ref \<Rightarrow> ref \<Rightarrow> ref \<Rightarrow> unit hm" where
  "placeTile_h st t c =
     h_bind (h_read state_objs st) (\<lambda>(ts, avs).
     h_bind (h_read coords_objs c) (\<lambda>cv.
     if map_of ts cv \<noteq> None then h_throw OccupiedCoordinate
     else
       h_bind (write_state st ((cv, t) # ts, avs)) (\<lambda>u.
       h_bind (mapM_h (\<lambda>(k, r). h_bind (tile_value_h r) (\<lambda>v. h_return (k, v)))
                 ((cv, t) # ts)) (\<lambda>tvs.
       h_bind (updateAvatars_h (Suc (8 * length tvs)) tvs cv avs) (\<lambda>avs'.
       write_state st ((cv, t) # ts, avs'))))))"

subsection \<open>The rule checker\<close>

text \<open>
  A player and a tile placement are read, never written; they are passed as the
  references they hold: the player's id and the tiles of the hand, the placement's tile
  and coordinate.
\<close>

record player_h =
  ph_id :: string
  ph_hand :: "ref list"

record tilePlacement_h =
  tph_tile :: ref
  tph_coords :: ref

definition checkPlayerAdjacency_h :: "ref option \<Rightarrow> tilePlacement_h \<Rightarrow> bool hm" where
  "checkPlayerAdjacency_h av tilePlacement =
     (case av of
        None \<Rightarrow> h_return False
      | Some a \<Rightarrow>
          h_bind (h_read avatar_objs a) (\<lambda>(cr, pr).
          h_catch
            (h_bind (coords_copy_h cr) (\<lambda>copied.
             h_bind (h_read position_objs pr) (\<lambda>pv.
             h_bind (moveOne_h copied (direction pv)) (\<lambda>newCoords.
             h_bind (h_read coords_objs newCoords) (\<lambda>nv.
             h_bind (h_read coords_objs (tph_coords tilePlacement)) (\<lambda>tv.
             h_return (coords_isEqualTo nv tv)))))))
            (\<lambda>e. h_return False)))"

definition checkPlacementLegality_h ::
  "ref \<Rightarrow> tilePlacement_h \<Rightarrow> player_h \<Rightarrow> js_value hm" where
  "checkPlacementLegality_h st tilePlacement pl =
     h_bind (getAvatar_h st (ph_id pl)) (\<lambda>av.
     case av of
       None \<Rightarrow> h_return Undefined
     | Some a \<Rightarrow>
         h_bind (getTile_h st (tph_coords tilePlacement)) (\<lambda>t.
         if t \<noteq> None then h_return (Bool False)
         else
           h_bind (checkPlayerAdjacency_h (Some a) tilePlacement) (\<lambda>adjacent.
           if \<not> adjacent then h_return (Bool False)
           else
             h_bind (some_h (\<lambda>t. isEqualToRotated_h t (tph_tile tilePlacement)) (ph_hand pl))
               (\<lambda>r. h_return (Bool r)))))"

definition avatarOutside_h :: "ref \<Rightarrow> string \<Rightarrow> bool hm" where
  "avatarOutside_h boardCopy pid =
     h_bind (getAvatar_h boardCopy pid) (\<lambda>av.
     case av of
       None \<Rightarrow> h_throw TypeError
     | Some avatarCopy \<Rightarrow>
         h_bind (h_read avatar_objs avatarCopy) (\<lambda>(cr, pr).
         isAvatarOnOutsidePosition_h cr pr))"

definition checkPlacementValidity_h ::
  "ref \<Rightarrow> tilePlacement_h \<Rightarrow> player_h \<Rightarrow> bool hm" where
  "checkPlacementValidity_h st tilePlacement pl =
     h_bind (boardState_copy_h st) (\<lambda>boardCopy.
     h_bind (placeTile_h boardCopy (tph_tile tilePlacement) (tph_coords tilePlacement)) (\<lambda>u.
     h_bind (avatarOutside_h boardCopy (ph_id pl)) (\<lambda>outside.
     h_return (\<not> outside))))"

fun testRotations_h :: "ref \<Rightarrow> ref \<Rightarrow> string \<Rightarrow> ref \<Rightarrow> int list \<Rightarrow> bool hm" where
  "testRotations_h st c pid t [] h = (Inr False, h)"
| "testRotations_h st c pid t (j # js) h =
     (case h_bind (boardState_copy_h st) (\<lambda>boardCopy.
           h_bind (tile_copy_h t j) (\<lambda>tileCopy.
           h_bind (placeTile_h boardCopy tileCopy c) (\<lambda>u.
           avatarOutside_h boardCopy pid))) h of
        (Inl e, h') \<Rightarrow> (Inl e, h')
      | (Inr outside, h') \<Rightarrow>
          if \<not> outside then (Inr True, h') else testRotations_h st c pid t js h')"

definition doesPlayerHaveValidMove_h :: "ref \<Rightarrow> ref \<Rightarrow> player_h \<Rightarrow> bool hm" where
  "doesPlayerHaveValidMove_h st c pl =
     some_h (\<lambda>t. testRotations_h st c (ph_id pl) t [0, 1, 2, 3]) (ph_hand pl)"

definition checkHandValidity_h :: "ref \<Rightarrow> tilePlacement_h \<Rightarrow> player_h \<Rightarrow> bool hm" where
  "checkHandValidity_h st tilePlacement pl =
     h_bind (checkPlacementValidity_h st tilePlacement pl) (\<lambda>valid.
     if valid then h_return True
     else doesPlayerHaveValidMove_h st (tph_coords tilePlacement) pl)"

definition canTakeAction_h :: "ref \<Rightarrow> tilePlacement_h \<Rightarrow> player_h \<Rightarrow> bool hm" where
  "canTakeAction_h st tilePlacement pl =
     h_bind (checkPlacementLegality_h st tilePlacement pl) (\<lambda>legal.
     if truthy legal then checkHandValidity_h st tilePlacement pl
     else h_return False)"

definition checkIsMoveOnBoard_h :: "ref \<Rightarrow> ref \<Rightarrow> ref \<Rightarrow> bool hm" where
  "checkIsMoveOnBoard_h c t p =
     h_bind (coords_copy_h c) (\<lambda>coordsCopy.
     h_bind (tile_getEndingPosition_h t p) (\<lambda>ending.
     h_catch
       (h_bind (moveOne_h coordsCopy (direction ending)) (\<lambda>moved. h_return True))
       (\<lambda>e. h_return False)))"

definition canPlaceAvatar_h :: "ref \<Rightarrow> string \<Rightarrow> ref \<Rightarrow> ref \<Rightarrow> ref \<Rightarrow> bool hm" where
  "canPlaceAvatar_h st playerId c t p =
     h_bind (isAvatarOnOutsidePosition_h c p) (\<lambda>outside.
     if \<not> outside then h_return False
     else
       h_bind (getAvatar_h st playerId) (\<lambda>av.
       if av \<noteq> None then h_return False
       else
         h_bind (getTile_h st c) (\<lambda>placed.
         if placed \<noteq> None then h_return False
         else
           h_bind (hasNeighboringTiles_h st c) (\<lambda>neighbours.
           if neighbours then h_return False
           else checkIsMoveOnBoard_h c t p))))"

subsection \<open>What a call leaves of the store\<close>

text \<open>
  Every object that existed in the store \<open>h\<close> is in the store \<open>h'\<close> with the same
  contents: each array of \<open>h\<close> is an initial part of the array of \<open>h'\<close>.
\<close>

definition initial_part :: "'a list \<Rightarrow> 'a list \<Rightarrow> bool" where
  "initial_part xs ys = (length xs \<le> length ys \<and> take (length xs) ys = xs)"

definition unchanged :: "heap \<Rightarrow> heap \<Rightarrow> bool" where
  "unchanged h h' =
     (initial_part (coords_objs h) (coords_objs h') \<and>
      initial_part (position_objs h) (position_objs h') \<and>
      initial_part (path_objs h) (path_objs h') \<and>
      initial_part (tile_objs h) (tile_objs h') \<and>
      initial_part (avatar_objs h) (avatar_objs h') \<and>
      initial_part (state_objs h) (state_objs h'))"

text \<open>
  The positions of a path, the paths of a tile, the coordinate and position of an
  avatar and the avatars of a state are objects that did not exist in the store \<open>b\<close>.
\<close>

definition fresh_path :: "heap \<Rightarrow> heap \<Rightarrow> ref \<Rightarrow> bool" where
  "fresh_path b h p =
     (p < length (path_objs h) \<and>
      length (position_objs b) \<le> fst (path_objs h ! p) \<and>
      length (position_objs b) \<le> snd (path_objs h ! p))"

definition fresh_tile :: "heap \<Rightarrow> heap \<Rightarrow> ref \<Rightarrow> bool" where
  "fresh_tile b h t =
     (length (tile_objs b) \<le> t \<and> t < length (tile_objs h) \<and>
      list_all (fresh_path b h) (tile_objs h ! t))"

definition fresh_avatar :: "heap \<Rightarrow> heap \<Rightarrow> ref \<Rightarrow> bool" where
  "fresh_avatar b h a =
     (a < length (avatar_objs h) \<and>
      length (coords_objs b) \<le> fst (avatar_objs h ! a) \<and>
      length (position_objs b) \<le> snd (avatar_objs h ! a))"

definition fresh_state :: "heap \<Rightarrow> heap \<Rightarrow> ref \<Rightarrow> bool" where
  "fresh_state b h st =
     (length (state_objs b) \<le> st \<and> st < length (state_objs h) \<and>
      list_all (\<lambda>(pid, a). fresh_avatar b h a) (snd (state_objs h ! st)))"

text \<open>
  A computation that leaves the store as it is, and one that leaves every object of the
  store it starts on as it is (whatever it allocates, and overwrites of what it has
  allocated itself).
\<close>

definition readonly :: "'a hm \<Rightarrow> bool" where
  "readonly m = (\<forall>h. snd (m h) = h)"

definition extends :: "'a hm \<Rightarrow> bool" where
  "extends m = (\<forall>h. unchanged h (snd (m h)))"

text \<open>
  A computation that, started on a store in which every object of the store \<open>b\<close> is
  as it was, ends on such a store.
\<close>

definition preserves :: "heap \<Rightarrow> 'a hm \<Rightarrow> bool" where
  "preserves b m = (\<forall>h. unchanged b h \<longrightarrow> unchanged b (snd (m h)))"

text \<open>The two stores differ at most in their position objects.\<close>

definition only_positions :: "heap \<Rightarrow> heap \<Rightarrow> bool" where
  "only_positions h h' =
     (coords_objs h' = coords_objs h \<and> path_objs h' = path_objs h \<and>
      tile_objs h' = tile_objs h \<and> avatar_objs h' = avatar_objs h \<and>
      state_objs h' = state_objs h)"

text \<open>
  The board state and the player as values, read off the store: the tile mapping with the
  paths of every tile, the avatar mapping with the coordinate and the position of every
  avatar, and the hand with the paths of every tile.
\<close>

definition avatar_value_h :: "ref \<Rightarrow> avatar hm" where
  "avatar_value_h a =
     h_bind (h_read avatar_objs a) (\<lambda>(cr, pr).
     h_bind (h_read coords_objs cr) (\<lambda>cv.
     h_bind (h_read position_objs pr) (\<lambda>pv.
     h_return \<lparr>av_coords = cv, av_position = pv\<rparr>)))"

definition boardState_value_h :: "ref \<Rightarrow> boardState hm" where
  "boardState_value_h st =
     h_bind (h_read state_objs st) (\<lambda>(ts, avs).
     h_bind (mapM_h (\<lambda>(c, t). h_bind (tile_value_h t) (\<lambda>v. h_return (c, v))) ts) (\<lambda>tvs.
     h_bind (mapM_h (\<lambda>(pid, a). h_bind (avatar_value_h a) (\<lambda>v. h_return (pid, v))) avs)
       (\<lambda>avs'.
     h_return \<lparr>tiles = tvs, avatars = avs'\<rparr>)))"

definition player_value_h :: "player_h \<Rightarrow> player hm" where
  "player_value_h pl =
     h_bind (mapM_h tile_value_h (ph_hand pl)) (\<lambda>ts.
     h_return \<lparr>player_id = ph_id pl, hand = ts\<rparr>)"

text \<open>
  A read that gives the same value on every store in which the objects of the store it
  succeeded on are unchanged.
\<close>

definition stable :: "'a hm \<Rightarrow> bool" where
  "stable m = (\<forall>h h' v. unchanged h h' \<and> fst (m h) = Inr v \<longrightarrow> fst (m h') = Inr v)"

subsection \<open>An example store\<close>

text \<open>
  The board \<open>board_facing_east\<close> as objects: the tile \<open>tile_curve\<close> (tile 0, paths 0 to
  3, positions 0 to 7) placed at (0,0), the avatar of the player on it (avatar 0,
  coordinate 0, position 8), the board state (state 0), and the coordinate (1,0) of the
  placement (coordinate 1).
\<close>

definition example_heap :: heap where
  "example_heap =
     \<lparr>coords_objs = [\<lparr>x = 0, y = 0\<rparr>, \<lparr>x = 1, y = 0\<rparr>],
      position_objs = [port_at NORTH 0, port_at EAST 1, port_at NORTH 1, port_at SOUTH 0,
                       port_at EAST 0, port_at WEST 0, port_at SOUTH 1, port_at WEST 1, port_at EAST 1],
      path_objs = [(0, 1), (2, 3), (4, 5), (6, 7)],
      tile_objs = [[0, 1, 2, 3]],
      avatar_objs = [(0, 8)],
      state_objs = [([(\<lparr>x = 0, y = 0\<rparr>, 0)], [(''jim'', 0)])]\<rparr>"

definition example_player :: player_h where
  "example_player = \<lparr>ph_id = ''jim'', ph_hand = [0]\<rparr>"

definition example_placement :: tilePlacement_h where
  "example_placement = \<lparr>tph_tile = 0, tph_coords = 1\<rparr>"

section \<open>Properties of the geometry\<close>

lemma incrementIndex_in_range:
  "0 \<le> incrementIndex idx DIRECTIONS_CLOCKWISE n \<and>
   nat (incrementIndex idx DIRECTIONS_CLOCKWISE n) < length DIRECTIONS_CLOCKWISE"
  by (simp add: incrementIndex_def DIRECTIONS_CLOCKWISE_def)

lemma moveOne_vertical:
  "moveOne c NORTH =
     (if 0 \<le> y c - 1 \<and> y c - 1 < 10 then Inr (c\<lparr>y := y c - 1\<rparr>) else Inl CannotMove)"
  "moveOne c SOUTH =
     (if 0 \<le> y c + 1 \<and> y c + 1 < 10 then Inr (c\<lparr>y := y c + 1\<rparr>) else Inl CannotMove)"
  by (simp_all add: moveOne_def move_def moveAlongAxis_def isValidCoordinate_def Let_def)

lemma moveOne_horizontal:
  "moveOne c EAST =
     (if 0 \<le> x c + 1 \<and> x c + 1 < 10 then Inr (c\<lparr>x := x c + 1\<rparr>) else Inl CannotMove)"
  "moveOne c WEST =
     (if 0 \<le> x c - 1 \<and> x c - 1 < 10 then Inr (c\<lparr>x := x c - 1\<rparr>) else Inl CannotMove)"
  by (simp_all add: moveOne_def move_def moveAlongAxis_def isValidCoordinate_def Let_def)

lemma moveOne_invalid_direction:
  "\<not> valid_direction d \<Longrightarrow> moveOne c d = Inl InvalidDirection"
  by (simp add: moveOne_def move_def valid_direction_def)

lemma moveOne_on_grid:
  assumes "on_grid c" and "valid_direction d"
  shows "moveOne c d =
           (if on_grid (translate c d) then Inr (translate c d) else Inl CannotMove)"
proof -
  from assms(2) consider "d = NORTH" | "d = EAST" | "d = SOUTH" | "d = WEST"
    by (auto simp: valid_direction_def)
  then show ?thesis
  proof cases
    case 1
    with assms(1) show ?thesis
      by (auto simp: moveOne_vertical on_grid_def translate_def)
  next
    case 2
    with assms(1) show ?thesis
      by (auto simp: moveOne_horizontal on_grid_def translate_def)
  next
    case 3
    with assms(1) show ?thesis
      by (auto simp: moveOne_vertical on_grid_def translate_def)
  next
    case 4
    with assms(1) show ?thesis
      by (auto simp: moveOne_horizontal on_grid_def translate_def)
  qed
qed

text \<open>
  Claim C9. For a coordinate on the 10x10 grid and one of the four directions,
  \<open>moveOne\<close> throws exactly when the one-step translation in that direction leaves the
  grid; otherwise it succeeds and the coordinate becomes the translated one.
\<close>

theorem moveOne_fails_iff_leaves_grid:
  assumes "0 \<le> x c \<and> x c < 10" and "0 \<le> y c \<and> y c < 10"
    and "d \<in> {NORTH, EAST, SOUTH, WEST}"
  shows "((\<exists>e. moveOne c d = Inl e) \<longleftrightarrow> \<not> on_grid (translate c d)) \<and>
         (on_grid (translate c d) \<longrightarrow> moveOne c d = Inr (translate c d))"
proof -
  have g: "on_grid c" using assms(1,2) by (simp add: on_grid_def)
  have v: "valid_direction d" using assms(3) by (auto simp: valid_direction_def)
  show ?thesis by (simp add: moveOne_on_grid [OF g v])
qed

theorem moveOne_fails_iff_leaves_grid_witness:
  "moveOne \<lparr>x = 0, y = 9\<rparr> WEST = Inl CannotMove \<and>
   moveOne \<lparr>x = 0, y = 9\<rparr> SOUTH = Inl CannotMove \<and>
   moveOne \<lparr>x = 0, y = 9\<rparr> NORTH = Inr \<lparr>x = 0, y = 8\<rparr> \<and>
   moveOne \<lparr>x = 0, y = 9\<rparr> EAST = Inr \<lparr>x = 1, y = 9\<rparr>"
  using moveOne_fails_iff_leaves_grid [of "\<lparr>x = 0, y = 9\<rparr>" NORTH]
    moveOne_fails_iff_leaves_grid [of "\<lparr>x = 0, y = 9\<rparr>" EAST]
    moveOne_fails_iff_leaves_grid [of "\<lparr>x = 0, y = 9\<rparr>" SOUTH]
    moveOne_fails_iff_leaves_grid [of "\<lparr>x = 0, y = 9\<rparr>" WEST]
  by (simp add: on_grid_def translate_def moveOne_vertical moveOne_horizontal)

text \<open>
  Claim C10. For a position whose direction is one of north, east, south, west and whose
  port is 0 or 1, reflecting twice gives a position equal (by \<open>isEqualTo\<close>) to the
  original.
\<close>

theorem reflect_involution:
  assumes "direction p \<in> {NORTH, EAST, SOUTH, WEST}" and "port p = 0 \<or> port p = 1"
  shows "position_isEqualTo (reflect (reflect p)) p"
  using assms by (auto simp: reflect_def position_isEqualTo_def)

theorem reflect_involution_witness:
  "position_isEqualTo (reflect (reflect \<lparr>direction = EAST, port = 1\<rparr>))
     \<lparr>direction = EAST, port = 1\<rparr>"
  using reflect_involution [of "\<lparr>direction = EAST, port = 1\<rparr>"] by simp

section \<open>Properties of tiles\<close>

lemma indexOf_directions:
  "indexOf DIRECTIONS_CLOCKWISE NORTH = 0" "indexOf DIRECTIONS_CLOCKWISE EAST = 1"
  "indexOf DIRECTIONS_CLOCKWISE SOUTH = 2" "indexOf DIRECTIONS_CLOCKWISE WEST = 3"
  by (simp_all add: DIRECTIONS_CLOCKWISE_def)

lemma direction_at:
  "DIRECTIONS_CLOCKWISE ! 0 = NORTH" "DIRECTIONS_CLOCKWISE ! Suc 0 = EAST"
  "DIRECTIONS_CLOCKWISE ! 2 = SOUTH" "DIRECTIONS_CLOCKWISE ! 3 = WEST"
  by (simp_all add: DIRECTIONS_CLOCKWISE_def)

lemma length_directions: "length DIRECTIONS_CLOCKWISE = 4"
  by (simp add: DIRECTIONS_CLOCKWISE_def)

lemma position_rotate_direction:
  "position_rotate p k =
     p\<lparr>direction := DIRECTIONS_CLOCKWISE ! nat ((indexOf DIRECTIONS_CLOCKWISE (direction p) + k) mod 4)\<rparr>"
  by (simp add: position_rotate_def incrementIndex_def length_directions)

lemma rotate_north:
  "direction p = NORTH \<Longrightarrow> position_rotate p 1 = p\<lparr>direction := EAST\<rparr>"
  "direction p = NORTH \<Longrightarrow> position_rotate p 2 = p\<lparr>direction := SOUTH\<rparr>"
  "direction p = NORTH \<Longrightarrow> position_rotate p 3 = p\<lparr>direction := WEST\<rparr>"
  by (simp_all add: position_rotate_direction indexOf_directions direction_at)

lemma rotate_east:
  "direction p = EAST \<Longrightarrow> position_rotate p 1 = p\<lparr>direction := SOUTH\<rparr>"
  "direction p = EAST \<Longrightarrow> position_rotate p 2 = p\<lparr>direction := WEST\<rparr>"
  "direction p = EAST \<Longrightarrow> position_rotate p 3 = p\<lparr>direction := NORTH\<rparr>"
  by (simp_all add: position_rotate_direction indexOf_directions direction_at)

lemma rotate_south:
  "direction p = SOUTH \<Longrightarrow> position_rotate p 1 = p\<lparr>direction := WEST\<rparr>"
  "direction p = SOUTH \<Longrightarrow> position_rotate p 2 = p\<lparr>direction := NORTH\<rparr>"
  "direction p = SOUTH \<Longrightarrow> position_rotate p 3 = p\<lparr>direction := EAST\<rparr>"
  by (simp_all add: position_rotate_direction indexOf_directions direction_at)

lemma rotate_west:
  "direction p = WEST \<Longrightarrow> position_rotate p 1 = p\<lparr>direction := NORTH\<rparr>"
  "direction p = WEST \<Longrightarrow> position_rotate p 2 = p\<lparr>direction := EAST\<rparr>"
  "direction p = WEST \<Longrightarrow> position_rotate p 3 = p\<lparr>direction := SOUTH\<rparr>"
  by (simp_all add: position_rotate_direction indexOf_directions direction_at)

lemmas rotate_table = rotate_north rotate_east rotate_south rotate_west

lemma position_rotate_back:
  assumes "valid_direction (direction p)" and "k \<in> {1, 2, 3}"
  shows "position_rotate (position_rotate p k) (4 - k) = p"
proof -
  from assms(2) consider "k = 1" | "k = 2" | "k = 3" by auto
  then show ?thesis
  proof cases
    case 1
    with assms(1) show ?thesis
      unfolding valid_direction_def by (elim disjE) (simp_all add: rotate_table)
  next
    case 2
    with assms(1) show ?thesis
      unfolding valid_direction_def by (elim disjE) (simp_all add: rotate_table)
  next
    case 3
    with assms(1) show ?thesis
      unfolding valid_direction_def by (elim disjE) (simp_all add: rotate_table)
  qed
qed


lemma path_isEqualTo_refl: "path_isEqualTo p p"
  by (simp add: path_isEqualTo_def position_isEqualTo_def)

lemma tile_isEqualTo_same_paths: "paths b = paths a \<Longrightarrow> tile_isEqualTo a b"
  by (auto simp: tile_isEqualTo_def list_all_iff list_ex_iff intro: path_isEqualTo_refl)

lemma path_rotate_back:
  assumes "valid_direction (direction (path_start p))"
    and "valid_direction (direction (path_end p))" and "k \<in> {1, 2, 3}"
  shows "path_rotate (path_rotate p k) (4 - k) = p"
  using assms by (cases p) (simp add: path_rotate_def position_rotate_back)

lemma invariant_valid_directions:
  assumes "tile_invariant t" and "p \<in> set (paths t)"
  shows "valid_direction (direction (path_start p)) \<and> valid_direction (direction (path_end p))"
proof -
  have "path_start p \<in> set (endpoints t)" "path_end p \<in> set (endpoints t)"
    using assms(2) by (auto simp: endpoints_def)
  then have "path_start p \<in> set all_ports" "path_end p \<in> set all_ports"
    using assms(1) by (simp_all add: tile_invariant_def)
  then show ?thesis
    by (auto simp: all_ports_def valid_direction_def)
qed

lemma map_path_copy [simp]: "map path_copy ps = ps"
proof -
  have "path_copy p = p" for p by (cases p) (simp add: path_copy_def)
  then show ?thesis by (simp add: map_idI)
qed

lemma paths_copy_zero [simp]: "paths (tile_copy t 0) = paths t"
  by (simp add: tile_copy_def)

lemma js_rem_4:
  "js_rem 1 4 = 1" "js_rem 2 4 = 2" "js_rem 3 4 = 3" "js_rem 0 4 = 0"
  by (simp_all add: js_rem_def)

lemma paths_rotate_pos:
  assumes "k \<in> {1, 2, 3}"
  shows "paths (tile_rotate t k) = map (\<lambda>p. path_rotate p k) (paths t)"
proof -
  have "js_rem k 4 = k" using assms by (auto simp: js_rem_4)
  moreover have "0 < k" using assms by auto
  ultimately show ?thesis by (simp add: tile_rotate_def length_directions)
qed

lemma paths_copy_pos:
  assumes "k \<in> {1, 2, 3}"
  shows "paths (tile_copy t k) = map (\<lambda>p. path_rotate p k) (paths t)"
proof -
  have "0 < k" using assms by auto
  then show ?thesis by (simp add: tile_copy_def paths_rotate_pos [OF assms])
qed

lemma tile_rotate_zero [simp]: "tile_rotate t 0 = t"
  by (simp add: tile_rotate_def js_rem_def)

lemma copy_rotated_back:
  assumes "tile_invariant t" and "k \<in> {1, 2, 3}"
    and "paths c = map (\<lambda>p. path_rotate p k) (paths t)"
  shows "paths (tile_copy c (4 - k)) = paths t"
proof -
  have k': "4 - k \<in> {1, 2, 3}" using assms(2) by auto
  have "paths (tile_copy c (4 - k)) = map (\<lambda>p. path_rotate (path_rotate p k) (4 - k)) (paths t)"
    by (simp add: paths_copy_pos [OF k'] assms(3) comp_def)
  also have "\<dots> = map (\<lambda>p. p) (paths t)"
    using invariant_valid_directions [OF assms(1)] assms(2)
    by (intro map_cong [OF refl] path_rotate_back) auto
  finally show ?thesis by simp
qed

lemma isEqualToRotated_of_rotated:
  assumes "tile_invariant t" and "k \<in> {1, 2, 3}"
    and "paths c = map (\<lambda>p. path_rotate p k) (paths t)"
  shows "isEqualToRotated t c"
proof -
  have "tile_isEqualTo t (tile_copy c (4 - k))"
    by (rule tile_isEqualTo_same_paths) (rule copy_rotated_back [OF assms])
  moreover have "4 - k = 1 \<or> 4 - k = 2 \<or> 4 - k = 3" using assms(2) by auto
  ultimately show ?thesis by (auto simp: isEqualToRotated_def)
qed

text \<open>
  Claim C7. For every tile that satisfies the tile invariant and every \<open>k\<close> in
  \<open>{0,1,2,3}\<close>, \<open>isEqualToRotated\<close> holds between the tile and a copy of it rotated by
  \<open>k\<close> quarter-turns clockwise (the copy rotated afterwards, or copied with \<open>k\<close>
  rotations).
\<close>

theorem isEqualToRotated_rotated_copy:
  assumes "tile_invariant t" and "k \<in> {0, 1, 2, 3}"
  shows "isEqualToRotated t (tile_rotate (tile_copy t 0) k) \<and> isEqualToRotated t (tile_copy t k)"
proof (cases "k = 0")
  case True
  then show ?thesis
    by (simp add: isEqualToRotated_def tile_isEqualTo_same_paths)
next
  case False
  with assms(2) have k: "k \<in> {1, 2, 3}" by auto
  show ?thesis
    by (simp add: isEqualToRotated_of_rotated [OF assms(1) k] paths_rotate_pos [OF k]
        paths_copy_pos [OF k])
qed

theorem isEqualToRotated_rotated_copy_witness:
  "tile_invariant tile_curve \<and>
   isEqualToRotated tile_curve (tile_rotate (tile_copy tile_curve 0) 1) \<and>
   isEqualToRotated tile_curve (tile_copy tile_curve 3)"
proof -
  have inv: "tile_invariant tile_curve" by code_simp
  show ?thesis
    using inv isEqualToRotated_rotated_copy [OF inv, of 1]
      isEqualToRotated_rotated_copy [OF inv, of 3]
    by simp
qed

lemma path_isEqualTo_segment: "path_isEqualTo q p \<longleftrightarrow> segment q = segment p"
proof -
  have eq: "position_isEqualTo a b \<longleftrightarrow> a = b" for a b :: position
    by (cases a, cases b) (simp add: position_isEqualTo_def)
  show ?thesis
    by (simp add: path_isEqualTo_def eq segment_def doubleton_eq_iff)
qed

lemma tile_isEqualTo_subset: "tile_isEqualTo a b \<longleftrightarrow> segments a \<subseteq> segments b"
proof -
  have "tile_isEqualTo a b \<longleftrightarrow>
          (\<forall>p \<in> set (paths a). \<exists>q \<in> set (paths b). segment q = segment p)"
    by (simp add: tile_isEqualTo_def list_all_iff list_ex_iff path_isEqualTo_segment)
  also have "\<dots> \<longleftrightarrow> segments a \<subseteq> segments b"
  proof
    assume l: "\<forall>p \<in> set (paths a). \<exists>q \<in> set (paths b). segment q = segment p"
    show "segments a \<subseteq> segments b"
      unfolding segments_def
    proof (rule image_subsetI)
      fix p assume "p \<in> set (paths a)"
      with l obtain q where "q \<in> set (paths b)" and "segment q = segment p" by blast
      then show "segment p \<in> segment ` set (paths b)" by (simp add: rev_image_eqI)
    qed
  next
    assume r: "segments a \<subseteq> segments b"
    show "\<forall>p \<in> set (paths a). \<exists>q \<in> set (paths b). segment q = segment p"
    proof
      fix p assume "p \<in> set (paths a)"
      then have "segment p \<in> segments b" using r by (auto simp: segments_def)
      then obtain q where "q \<in> set (paths b)" and "segment p = segment q"
        by (auto simp: segments_def)
      then show "\<exists>q \<in> set (paths b). segment q = segment p" by (intro bexI [of _ q]) simp_all
    qed
  qed
  finally show ?thesis .
qed

lemma distinct_segments:
  "distinct (concat (map (\<lambda>p. [path_start p, path_end p]) ps)) \<Longrightarrow> distinct (map segment ps)"
proof (induction ps)
  case Nil
  then show ?case by simp
next
  case (Cons p ps)
  have "segment p \<noteq> segment q" if "q \<in> set ps" for q
  proof
    assume "segment p = segment q"
    then have "path_start p = path_start q \<or> path_start p = path_end q"
      by (auto simp: segment_def doubleton_eq_iff)
    with that Cons.prems show False by auto
  qed
  with Cons show ?case by auto
qed

lemma card_segments_invariant:
  assumes "tile_invariant t"
  shows "card (segments t) = 4"
proof -
  have "distinct (map segment (paths t))"
    using assms by (simp add: tile_invariant_def endpoints_def distinct_segments)
  then have "card (set (map segment (paths t))) = length (map segment (paths t))"
    by (rule distinct_card)
  then show ?thesis using assms by (simp add: segments_def tile_invariant_def)
qed

text \<open>
  Claim C8. For every pair of tiles \<open>a\<close> and \<open>b\<close>, a tile being an object with the tile
  invariant (4 segments that cover the 8 ports exactly once): \<open>isEqualTo(a, b)\<close> returns
  true if and only if the segment sets of \<open>a\<close> and \<open>b\<close> match exactly as unordered sets,
  each segment compared symmetrically in its two endpoints.
\<close>

theorem isEqualTo_iff_same_segments:
  assumes "tile_invariant a" and "tile_invariant b"
  shows "tile_isEqualTo a b \<longleftrightarrow> segments a = segments b"
proof
  assume "tile_isEqualTo a b"
  then have sub: "segments a \<subseteq> segments b" by (simp add: tile_isEqualTo_subset)
  have "card (segments b) \<le> card (segments a)"
    by (simp add: card_segments_invariant assms)
  moreover have "finite (segments b)" by (simp add: segments_def)
  ultimately show "segments a = segments b" using sub by (rule card_seteq [rotated 2])
next
  assume "segments a = segments b"
  then show "tile_isEqualTo a b" by (simp add: tile_isEqualTo_subset)
qed

theorem isEqualTo_iff_same_segments_witness:
  "tile_invariant tile_curve \<and> tile_invariant tile_curve_flipped \<and>
   tile_invariant tile_pinwheel \<and>
   segments tile_curve = segments tile_curve_flipped \<and>
   tile_isEqualTo tile_curve tile_curve_flipped \<and>
   segments tile_curve \<noteq> segments tile_pinwheel \<and>
   \<not> tile_isEqualTo tile_curve tile_pinwheel"
proof -
  have a: "tile_invariant tile_curve" by code_simp
  have b: "tile_invariant tile_curve_flipped" by code_simp
  have p: "tile_invariant tile_pinwheel" by code_simp
  have c: "segments tile_curve = segments tile_curve_flipped" by code_simp
  have d: "segments tile_curve \<noteq> segments tile_pinwheel" by code_simp
  have "tile_isEqualTo tile_curve tile_curve_flipped"
    using isEqualTo_iff_same_segments [of tile_curve tile_curve_flipped] a b c by blast
  moreover have "\<not> tile_isEqualTo tile_curve tile_pinwheel"
    using isEqualTo_iff_same_segments [of tile_curve tile_pinwheel] a p d by blast
  ultimately show ?thesis using a b p c d by simp
qed

section \<open>Properties of the rule checker\<close>

lemma coords_isEqualTo_eq: "coords_isEqualTo a b \<longleftrightarrow> a = b"
  by (cases a, cases b) (simp add: coords_isEqualTo_def)

lemma array_some_False: "array_some f xs = Inr False \<longleftrightarrow> (\<forall>a \<in> set xs. f a = Inr False)"
  by (induction xs) (auto split: sum.splits)

lemma array_some_True_D: "array_some f xs = Inr True \<Longrightarrow> \<exists>a \<in> set xs. f a = Inr True"
  by (induction xs) (auto split: sum.splits if_splits)

lemma testRotations_array_some:
  "testRotations placeTile s c (player_id pl) t js =
     array_some (\<lambda>j. checkPlacementValidity placeTile s (rotatedPlacement t j c) pl) js"
  by (induction js)
    (auto simp: checkPlacementValidity_def rotatedPlacement_def split: sum.splits option.splits)

lemma doesPlayerHaveValidMove_array_some:
  "doesPlayerHaveValidMove placeTile s c pl =
     array_some (\<lambda>t. array_some
        (\<lambda>j. checkPlacementValidity placeTile s (rotatedPlacement t j c) pl) [0, 1, 2, 3]) (hand pl)"
  by (simp only: doesPlayerHaveValidMove_def testRotations_array_some)

lemma doesPlayerHaveValidMove_False:
  "doesPlayerHaveValidMove placeTile s c pl = Inr False \<longleftrightarrow>
     (\<forall>t \<in> set (hand pl). \<forall>k \<in> {0, 1, 2, 3}.
        checkPlacementValidity placeTile s (rotatedPlacement t k c) pl = Inr False)"
  by (simp only: doesPlayerHaveValidMove_array_some array_some_False) simp

lemma doesPlayerHaveValidMove_True_D:
  assumes "doesPlayerHaveValidMove placeTile s c pl = Inr True"
  shows "\<exists>t \<in> set (hand pl). \<exists>k \<in> {0, 1, 2, 3}.
           checkPlacementValidity placeTile s (rotatedPlacement t k c) pl = Inr True"
proof -
  from assms obtain t where t: "t \<in> set (hand pl)"
    and "array_some (\<lambda>j. checkPlacementValidity placeTile s (rotatedPlacement t j c) pl)
           [0, 1, 2, 3] = Inr True"
    unfolding doesPlayerHaveValidMove_array_some by (blast dest: array_some_True_D)
  then obtain k where "k \<in> set [0, 1, 2, 3]"
    and "checkPlacementValidity placeTile s (rotatedPlacement t k c) pl = Inr True"
    by (blast dest: array_some_True_D)
  with t show ?thesis by auto
qed

text \<open>
  On the board modelled from the spec an eliminated avatar is removed from the avatar
  mapping. \<open>checkPlacementValidity\<close> then reads the coordinate of an absent avatar: for
  the placement that routes the avatar of \<open>board_facing_east\<close> off the grid it raises
  instead of returning false, and so does \<open>checkHandValidity\<close>.
\<close>

lemma checkPlacementValidity_raises_when_eliminated:
  "checkPlacementValidity Board_placeTile board_facing_east
     (rotatedPlacement tile_curve 3 \<lparr>x = 1, y = 0\<rparr>) player_one = Inl TypeError \<and>
   checkHandValidity Board_placeTile board_facing_east
     (rotatedPlacement tile_curve 3 \<lparr>x = 1, y = 0\<rparr>) player_one = Inl TypeError"
  by code_simp

text \<open>
  When the submitted placement is suicidal, \<open>checkHandValidity\<close> returns the result of
  \<open>_doesPlayerHaveValidMove\<close> as it is, whatever \<open>Board.placeTile\<close> does: true when a tile
  of the hand in some rotation keeps the player alive at the coordinate, and false only
  when none does.
\<close>

lemma checkHandValidity_suicidal:
  assumes "checkPlacementValidity placeTile s tp pl = Inr False"
  shows "checkHandValidity placeTile s tp pl =
           doesPlayerHaveValidMove placeTile s (tp_coords tp) pl"
  using assms by (simp add: checkHandValidity_def)

lemma checkHandValidity_False_D:
  assumes "checkHandValidity placeTile s tp pl = Inr False"
  shows "checkPlacementValidity placeTile s tp pl = Inr False \<and>
         (\<forall>t \<in> set (hand pl). \<forall>k \<in> {0, 1, 2, 3}.
            checkPlacementValidity placeTile s (rotatedPlacement t k (tp_coords tp)) pl
              = Inr False)"
proof -
  from assms have f: "checkPlacementValidity placeTile s tp pl = Inr False"
    by (auto simp: checkHandValidity_def split: sum.splits if_splits)
  with assms have "doesPlayerHaveValidMove placeTile s (tp_coords tp) pl = Inr False"
    by (simp add: checkHandValidity_def)
  with f show ?thesis by (simp only: doesPlayerHaveValidMove_False)
qed

lemma checkHandValidity_True_D:
  assumes "checkHandValidity placeTile s tp pl = Inr True"
  shows "checkPlacementValidity placeTile s tp pl = Inr True \<or>
         (\<exists>t \<in> set (hand pl). \<exists>k \<in> {0, 1, 2, 3}.
            checkPlacementValidity placeTile s (rotatedPlacement t k (tp_coords tp)) pl
              = Inr True)"
proof (cases "checkPlacementValidity placeTile s tp pl = Inr True")
  case True
  then show ?thesis by simp
next
  case False
  with assms have "doesPlayerHaveValidMove placeTile s (tp_coords tp) pl = Inr True"
    by (auto simp: checkHandValidity_def split: sum.splits if_splits)
  then show ?thesis by (blast dest: doesPlayerHaveValidMove_True_D)
qed

text \<open>
  Claim C1 fails on the code. On \<open>board_facing_east\<close> the player's avatar faces the empty
  cell (1,0). With \<open>tile_curve\<close> in hand the player submits it turned three times at (1,0):
  a legal placement that takes the avatar in at the west port 0 and out at the north
  port 1, off the grid, while the same tile unturned keeps the avatar alive there. The
  claim has \<open>checkHandValidity\<close> return false; it returns true, and \<open>canTakeAction\<close>
  accepts the move. With \<open>tile_pinwheel\<close> in hand every rotation takes the avatar off
  the grid at (1,0): the claim has \<open>checkHandValidity\<close> return true (forced elimination);
  it returns false, and \<open>canTakeAction\<close> rejects the only move the player has. On the
  board that removes an eliminated avatar the same two calls raise \<open>TypeError\<close>.
\<close>

theorem checkHandValidity_accepts_suicide_with_escape:
  "checkPlacementLegality board_facing_east place_east_turned player_one = Bool True \<and>
   checkPlacementValidity Board_placeTile_kept board_facing_east place_east_turned player_one
     = Inr False \<and>
   hand player_one = [tile_curve] \<and>
   checkPlacementValidity Board_placeTile_kept board_facing_east
     (rotatedPlacement tile_curve 0 (tp_coords place_east_turned)) player_one = Inr True \<and>
   checkHandValidity Board_placeTile_kept board_facing_east place_east_turned player_one
     = Inr True \<and>
   canTakeAction Board_placeTile_kept board_facing_east place_east_turned player_one
     = Inr True \<and>
   checkPlacementLegality board_facing_east place_east_pinwheel player_pinwheel = Bool True \<and>
   hand player_pinwheel = [tile_pinwheel] \<and>
   checkPlacementValidity Board_placeTile_kept board_facing_east
     (rotatedPlacement tile_pinwheel 0 (tp_coords place_east_pinwheel)) player_pinwheel
     = Inr False \<and>
   checkPlacementValidity Board_placeTile_kept board_facing_east
     (rotatedPlacement tile_pinwheel 1 (tp_coords place_east_pinwheel)) player_pinwheel
     = Inr False \<and>
   checkPlacementValidity Board_placeTile_kept board_facing_east
     (rotatedPlacement tile_pinwheel 2 (tp_coords place_east_pinwheel)) player_pinwheel
     = Inr False \<and>
   checkPlacementValidity Board_placeTile_kept board_facing_east
     (rotatedPlacement tile_pinwheel 3 (tp_coords place_east_pinwheel)) player_pinwheel
     = Inr False \<and>
   checkHandValidity Board_placeTile_kept board_facing_east place_east_pinwheel player_pinwheel
     = Inr False \<and>
   canTakeAction Board_placeTile_kept board_facing_east place_east_pinwheel player_pinwheel
     = Inr False \<and>
   checkHandValidity Board_placeTile board_facing_east place_east_turned player_one
     = Inl TypeError \<and>
   checkHandValidity Board_placeTile board_facing_east place_east_pinwheel player_pinwheel
     = Inl TypeError"
  by code_simp


text \<open>
  Claim C3. \<open>canTakeAction\<close> returns true if and only if \<open>checkPlacementLegality\<close> and
  \<open>checkHandValidity\<close> both return true; when a tile is already placed at the target
  coordinate it returns false.
\<close>

theorem canTakeAction_iff:
  "(canTakeAction placeTile s tp pl = Inr True \<longleftrightarrow>
      checkPlacementLegality s tp pl = Bool True \<and>
      checkHandValidity placeTile s tp pl = Inr True) \<and>
   (getTile s (tp_coords tp) \<noteq> None \<longrightarrow> canTakeAction placeTile s tp pl = Inr False)"
proof -
  have t: "truthy v \<longleftrightarrow> v = Bool True" for v by (cases v) auto
  have "getTile s (tp_coords tp) \<noteq> None \<Longrightarrow> \<not> truthy (checkPlacementLegality s tp pl)"
    by (auto simp: checkPlacementLegality_def split: option.splits)
  then show ?thesis by (auto simp: canTakeAction_def t)
qed

theorem canTakeAction_iff_witness:
  "getTile board_facing_east (tp_coords place_occupied) \<noteq> None \<and>
   canTakeAction Board_placeTile board_facing_east place_occupied player_one = Inr False \<and>
   canTakeAction Board_placeTile board_facing_east place_east player_one = Inr True"
proof -
  have a: "getTile board_facing_east (tp_coords place_occupied) \<noteq> None" by code_simp
  have b: "checkPlacementLegality board_facing_east place_east player_one = Bool True"
    by code_simp
  have c: "checkHandValidity Board_placeTile board_facing_east place_east player_one = Inr True"
    by code_simp
  have "canTakeAction Board_placeTile board_facing_east place_occupied player_one = Inr False"
    using canTakeAction_iff [of Board_placeTile board_facing_east place_occupied player_one] a
    by blast
  moreover
  have "canTakeAction Board_placeTile board_facing_east place_east player_one = Inr True"
    using canTakeAction_iff [of Board_placeTile board_facing_east place_east player_one] b c
    by blast
  ultimately show ?thesis using a by simp
qed

lemma getAvatar_on_grid:
  "avatars_on_grid s \<Longrightarrow> getAvatar s pid = Some a \<Longrightarrow> on_grid (av_coords a)"
  by (auto simp: avatars_on_grid_def getAvatar_def list_all_iff dest: map_of_SomeD)

lemma checkPlayerAdjacency_on_grid:
  assumes "on_grid (av_coords a)"
  shows "checkPlayerAdjacency (Some a) tp \<longleftrightarrow>
           valid_direction (direction (av_position a)) \<and>
           on_grid (translate (av_coords a) (direction (av_position a))) \<and>
           tp_coords tp = translate (av_coords a) (direction (av_position a))"
proof (cases "valid_direction (direction (av_position a))")
  case True
  show ?thesis
    using True
    by (auto simp: checkPlayerAdjacency_def moveOne_on_grid [OF assms True] coords_isEqualTo_eq)
next
  case False
  then show ?thesis
    by (simp add: checkPlayerAdjacency_def moveOne_invalid_direction)
qed

lemma checkPlayerAdjacency_moveOne:
  "checkPlayerAdjacency (Some a) tp \<longleftrightarrow>
     moveOne (av_coords a) (direction (av_position a)) = Inr (tp_coords tp)"
  by (auto simp: checkPlayerAdjacency_def coords_isEqualTo_eq split: sum.splits)

text \<open>
  Claim C4. \<open>checkPlacementLegality\<close> returns true if and only if the player has an
  avatar, the target coordinate holds no tile, one grid step (\<open>moveOne\<close>) from the
  avatar's coordinate in the direction of the avatar's port succeeds and gives the target
  coordinate, and some tile of the hand is rotation-equal to the proposed tile. It never
  raises (its result type has no error), and it returns false when the avatar's step
  fails. On a board state whose avatars stand on the grid the step is the translation
  by one cell, and it succeeds exactly when the translated coordinate is on the grid.
\<close>

theorem checkPlacementLegality_iff:
  "(checkPlacementLegality s tp pl = Bool True \<longleftrightarrow>
      (\<exists>a. getAvatar s (player_id pl) = Some a \<and>
           getTile s (tp_coords tp) = None \<and>
           moveOne (av_coords a) (direction (av_position a)) = Inr (tp_coords tp) \<and>
           (\<exists>t \<in> set (hand pl). isEqualToRotated t (tp_tile tp)))) \<and>
   (\<forall>a e. getAvatar s (player_id pl) = Some a \<and>
          moveOne (av_coords a) (direction (av_position a)) = Inl e \<longrightarrow>
          checkPlacementLegality s tp pl = Bool False) \<and>
   (avatars_on_grid s \<longrightarrow>
      (checkPlacementLegality s tp pl = Bool True \<longleftrightarrow>
         (\<exists>a. getAvatar s (player_id pl) = Some a \<and>
              getTile s (tp_coords tp) = None \<and>
              valid_direction (direction (av_position a)) \<and>
              on_grid (translate (av_coords a) (direction (av_position a))) \<and>
              tp_coords tp = translate (av_coords a) (direction (av_position a)) \<and>
              (\<exists>t \<in> set (hand pl). isEqualToRotated t (tp_tile tp)))))"
proof (cases "getAvatar s (player_id pl)")
  case None
  then show ?thesis by (simp add: checkPlacementLegality_def)
next
  case (Some a)
  have 1: "checkPlacementLegality s tp pl = Bool True \<longleftrightarrow>
             getTile s (tp_coords tp) = None \<and>
             moveOne (av_coords a) (direction (av_position a)) = Inr (tp_coords tp) \<and>
             (\<exists>t \<in> set (hand pl). isEqualToRotated t (tp_tile tp))"
    by (simp add: checkPlacementLegality_def Some checkPlayerAdjacency_moveOne list_ex_iff)
  have 2: "checkPlacementLegality s tp pl = Bool False"
    if "moveOne (av_coords a) (direction (av_position a)) = Inl e" for e
    using that by (simp add: checkPlacementLegality_def Some checkPlayerAdjacency_moveOne)
  have 3: "checkPlacementLegality s tp pl = Bool True \<longleftrightarrow>
             getTile s (tp_coords tp) = None \<and>
             valid_direction (direction (av_position a)) \<and>
             on_grid (translate (av_coords a) (direction (av_position a))) \<and>
             tp_coords tp = translate (av_coords a) (direction (av_position a)) \<and>
             (\<exists>t \<in> set (hand pl). isEqualToRotated t (tp_tile tp))"
    if g: "avatars_on_grid s"
  proof -
    have "on_grid (av_coords a)" by (rule getAvatar_on_grid [OF g Some])
    then show ?thesis
      by (auto simp: checkPlacementLegality_def Some checkPlayerAdjacency_on_grid list_ex_iff)
  qed
  show ?thesis using 1 2 3 by (simp add: Some)
qed

theorem checkPlacementLegality_iff_witness:
  "avatars_on_grid board_facing_east \<and>
   checkPlacementLegality board_facing_east place_east player_one = Bool True \<and>
   moveOne \<lparr>x = 0, y = 0\<rparr> NORTH = Inl CannotMove \<and>
   checkPlacementLegality board_on_edge place_east player_one = Bool False"
proof -
  let ?a = "\<lparr>av_coords = \<lparr>x = 0, y = 0\<rparr>, av_position = port_at EAST 1\<rparr>"
  let ?b = "\<lparr>av_coords = \<lparr>x = 0, y = 0\<rparr>, av_position = port_at NORTH 0\<rparr>"
  have g: "avatars_on_grid board_facing_east" by code_simp
  have 1: "getAvatar board_facing_east (player_id player_one) = Some ?a" by code_simp
  have 2: "getTile board_facing_east (tp_coords place_east) = None" by code_simp
  have 3: "valid_direction (direction (av_position ?a))" by code_simp
  have 4: "on_grid (translate (av_coords ?a) (direction (av_position ?a)))" by code_simp
  have 5: "tp_coords place_east = translate (av_coords ?a) (direction (av_position ?a))"
    by code_simp
  have "list_ex (\<lambda>t. isEqualToRotated t (tp_tile place_east)) (hand player_one)"
    by code_simp
  then have 6: "\<exists>t \<in> set (hand player_one). isEqualToRotated t (tp_tile place_east)"
    by (simp add: list_ex_iff)
  have "checkPlacementLegality board_facing_east place_east player_one = Bool True"
    using checkPlacementLegality_iff [of board_facing_east place_east player_one]
      g 1 2 3 4 5 6
    by blast
  moreover
  have 7: "getAvatar board_on_edge (player_id player_one) = Some ?b" by code_simp
  have 8: "moveOne \<lparr>x = 0, y = 0\<rparr> NORTH = Inl CannotMove" by code_simp
  then have 9: "moveOne (av_coords ?b) (direction (av_position ?b)) = Inl CannotMove"
    by (simp add: port_at_def)
  have "checkPlacementLegality board_on_edge place_east player_one = Bool False"
    using checkPlacementLegality_iff [of board_on_edge place_east player_one] 7 9 by blast
  ultimately show ?thesis using g 8 by simp
qed

lemma checkIsMoveOnBoard_True:
  assumes "on_grid c"
  shows "checkIsMoveOnBoard c t p = Inr True \<longleftrightarrow>
           (\<exists>e. tile_getEndingPosition t p = Inr e \<and> valid_direction (direction e) \<and>
                on_grid (translate c (direction e)))"
proof (cases "tile_getEndingPosition t p")
  case (Inl e)
  then show ?thesis by (simp add: checkIsMoveOnBoard_def)
next
  case (Inr e)
  show ?thesis
  proof (cases "valid_direction (direction e)")
    case True
    show ?thesis
      by (simp add: checkIsMoveOnBoard_def Inr moveOne_on_grid [OF assms True] True)
  next
    case False
    then show ?thesis
      by (simp add: checkIsMoveOnBoard_def Inr moveOne_invalid_direction)
  qed
qed

text \<open>
  Claim C5. \<open>canPlaceAvatar\<close> returns true if and only if the position's exit at that
  coordinate points off the board, the player has no avatar yet, the target cell holds
  no tile, the target cell has no orthogonally neighbouring placed tile, and
  \<open>checkIsMoveOnBoard\<close> returns true. For a coordinate of the grid,
  \<open>checkIsMoveOnBoard\<close> returns true exactly when the tile has an ending position for
  the given entry position and one step in its direction stays on the grid.
\<close>

theorem canPlaceAvatar_iff:
  "(canPlaceAvatar s playerId c t p = Inr True \<longleftrightarrow>
      isAvatarOnOutsidePosition c p \<and>
      getAvatar s playerId = None \<and>
      getTile s c = None \<and>
      \<not> hasNeighboringTiles s c \<and>
      checkIsMoveOnBoard c t p = Inr True) \<and>
   (on_grid c \<longrightarrow>
      (checkIsMoveOnBoard c t p = Inr True \<longleftrightarrow>
         (\<exists>e. tile_getEndingPosition t p = Inr e \<and> valid_direction (direction e) \<and>
              on_grid (translate c (direction e)))))"
proof (intro conjI impI)
  show "canPlaceAvatar s playerId c t p = Inr True \<longleftrightarrow>
      isAvatarOnOutsidePosition c p \<and>
      getAvatar s playerId = None \<and>
      getTile s c = None \<and>
      \<not> hasNeighboringTiles s c \<and>
      checkIsMoveOnBoard c t p = Inr True"
    by (auto simp: canPlaceAvatar_def)
next
  assume "on_grid c"
  then show "checkIsMoveOnBoard c t p = Inr True \<longleftrightarrow>
         (\<exists>e. tile_getEndingPosition t p = Inr e \<and> valid_direction (direction e) \<and>
              on_grid (translate c (direction e)))"
    by (rule checkIsMoveOnBoard_True)
qed

theorem canPlaceAvatar_iff_witness:
  "on_grid \<lparr>x = 0, y = 0\<rparr> \<and>
   checkIsMoveOnBoard \<lparr>x = 0, y = 0\<rparr> tile_curve (port_at NORTH 0) = Inr True \<and>
   canPlaceAvatar board_empty ''jim'' \<lparr>x = 0, y = 0\<rparr> tile_curve (port_at NORTH 0) = Inr True"
proof -
  let ?c = "\<lparr>x = 0, y = 0\<rparr>"
  have g: "on_grid ?c" by code_simp
  have 1: "isAvatarOnOutsidePosition ?c (port_at NORTH 0)" by code_simp
  have 2: "getAvatar board_empty ''jim'' = None" by code_simp
  have 3: "getTile board_empty ?c = None" by code_simp
  have 4: "\<not> hasNeighboringTiles board_empty ?c" by code_simp
  have 5: "tile_getEndingPosition tile_curve (port_at NORTH 0) = Inr (port_at EAST 1)" by code_simp
  have 6: "valid_direction (direction (port_at EAST 1))" by code_simp
  have 7: "on_grid (translate ?c (direction (port_at EAST 1)))" by code_simp
  have m: "checkIsMoveOnBoard ?c tile_curve (port_at NORTH 0) = Inr True"
    using canPlaceAvatar_iff [of board_empty "''jim''" ?c tile_curve "port_at NORTH 0"]
      g 5 6 7
    by blast
  have "canPlaceAvatar board_empty ''jim'' ?c tile_curve (port_at NORTH 0) = Inr True"
    using canPlaceAvatar_iff [of board_empty "''jim''" ?c tile_curve "port_at NORTH 0"]
      1 2 3 4 m
    by blast
  with g m show ?thesis by simp
qed

section \<open>Properties of the rule checker on the store\<close>

subsection \<open>Initial parts\<close>

lemma initial_part_refl [simp]: "initial_part xs xs"
  by (simp add: initial_part_def)

lemma initial_part_trans:
  "initial_part xs ys \<Longrightarrow> initial_part ys zs \<Longrightarrow> initial_part xs zs"
proof -
  assume a: "initial_part xs ys" and b: "initial_part ys zs"
  have "take (length xs) zs = take (length xs) (take (length ys) zs)"
    using a by (simp add: initial_part_def min_def)
  also have "\<dots> = xs" using a b by (simp add: initial_part_def)
  finally show ?thesis using a b by (simp add: initial_part_def)
qed

lemma initial_part_append: "initial_part xs ys \<Longrightarrow> initial_part xs (ys @ zs)"
  by (simp add: initial_part_def)

lemma initial_part_update:
  "initial_part xs ys \<Longrightarrow> length xs \<le> i \<Longrightarrow> initial_part xs (ys[i := v])"
  by (simp add: initial_part_def)

lemma initial_part_length: "initial_part xs ys \<Longrightarrow> length xs \<le> length ys"
  by (simp add: initial_part_def)

lemma initial_part_nth: "initial_part xs ys \<Longrightarrow> i < length xs \<Longrightarrow> ys ! i = xs ! i"
  by (metis initial_part_def nth_take)

lemma unchanged_refl [simp]: "unchanged h h"
  by (simp add: unchanged_def)

lemma unchanged_trans: "unchanged h h' \<Longrightarrow> unchanged h' h'' \<Longrightarrow> unchanged h h''"
  unfolding unchanged_def by (blast intro: initial_part_trans)

subsection \<open>Combinators\<close>

lemma snd_h_return [simp]: "snd (h_return a h) = h"
  by (simp add: h_return_def)

lemma snd_h_throw [simp]: "snd (h_throw e h) = h"
  by (simp add: h_throw_def)

lemma snd_h_read [simp]: "snd (h_read sel r h) = h"
  by (simp add: h_read_def)

lemma h_bind_Inl: "m h = (Inl e, h') \<Longrightarrow> h_bind m f h = (Inl e, h')"
  by (simp add: h_bind_def)

lemma h_bind_Inr: "m h = (Inr a, h') \<Longrightarrow> h_bind m f h = f a h'"
  by (simp add: h_bind_def)

lemma h_catch_Inl: "m h = (Inl e, h') \<Longrightarrow> h_catch m f h = f e h'"
  by (simp add: h_catch_def)

lemma h_catch_Inr: "m h = (Inr a, h') \<Longrightarrow> h_catch m f h = (Inr a, h')"
  by (simp add: h_catch_def)

lemma readonly_return [simp]: "readonly (h_return a)"
  by (simp add: readonly_def)

lemma readonly_throw [simp]: "readonly (h_throw e)"
  by (simp add: readonly_def)

lemma readonly_read [simp]: "readonly (h_read sel r)"
  by (simp add: readonly_def)

lemma readonly_bind:
  assumes "readonly m" and "\<And>a. readonly (f a)"
  shows "readonly (h_bind m f)"
  unfolding readonly_def
proof
  fix h
  obtain r h' where mh: "m h = (r, h')" by (cases "m h")
  with assms(1) have h': "h' = h" by (metis readonly_def snd_conv)
  show "snd (h_bind m f h) = h"
  proof (cases r)
    case (Inl e)
    with mh h' show ?thesis by (simp add: h_bind_Inl)
  next
    case (Inr a)
    with mh h' assms(2) [of a] show ?thesis by (simp add: h_bind_Inr readonly_def)
  qed
qed

lemma readonly_mapM:
  assumes "\<And>a. readonly (f a)"
  shows "readonly (mapM_h f xs)"
  unfolding readonly_def
proof (induction xs)
  case Nil
  show ?case by simp
next
  case (Cons a xs)
  show ?case
  proof
    fix h
    have 1: "snd (f a h) = h" using assms [of a] by (simp add: readonly_def)
    have 2: "snd (mapM_h f xs h) = h" using Cons by simp
    show "snd (mapM_h f (a # xs) h) = h"
      using 1 2 by (cases "f a h"; cases "mapM_h f xs h") (auto split: sum.splits)
  qed
qed

lemma readonly_extends: "readonly m \<Longrightarrow> extends m"
  by (simp add: readonly_def extends_def)

lemma extends_bind:
  assumes "extends m" and "\<And>a. extends (f a)"
  shows "extends (h_bind m f)"
  unfolding extends_def
proof
  fix h
  obtain r h' where mh: "m h = (r, h')" by (cases "m h")
  with assms(1) have u: "unchanged h h'" by (metis extends_def snd_conv)
  show "unchanged h (snd (h_bind m f h))"
  proof (cases r)
    case (Inl e)
    with mh u show ?thesis by (simp add: h_bind_Inl)
  next
    case (Inr a)
    have "unchanged h' (snd (f a h'))" using assms(2) [of a] by (simp add: extends_def)
    with u have "unchanged h (snd (f a h'))" by (rule unchanged_trans)
    with mh Inr show ?thesis by (simp add: h_bind_Inr)
  qed
qed

lemma extends_catch:
  assumes "extends m" and "\<And>e. extends (f e)"
  shows "extends (h_catch m f)"
  unfolding extends_def
proof
  fix h
  obtain r h' where mh: "m h = (r, h')" by (cases "m h")
  with assms(1) have u: "unchanged h h'" by (metis extends_def snd_conv)
  show "unchanged h (snd (h_catch m f h))"
  proof (cases r)
    case (Inl e)
    have "unchanged h' (snd (f e h'))" using assms(2) [of e] by (simp add: extends_def)
    with u have "unchanged h (snd (f e h'))" by (rule unchanged_trans)
    with mh Inl show ?thesis by (simp add: h_catch_Inl)
  next
    case (Inr a)
    with mh u show ?thesis by (simp add: h_catch_Inr)
  qed
qed

lemma extends_mapM:
  assumes "\<And>a. extends (f a)"
  shows "extends (mapM_h f xs)"
  unfolding extends_def
proof (induction xs)
  case Nil
  show ?case by simp
next
  case (Cons a xs)
  show ?case
  proof
    fix h
    obtain r h' where fa: "f a h = (r, h')" by (cases "f a h")
    with assms [of a] have u: "unchanged h h'" by (metis extends_def snd_conv)
    show "unchanged h (snd (mapM_h f (a # xs) h))"
    proof (cases r)
      case (Inl e)
      with fa u show ?thesis by simp
    next
      case (Inr b)
      have "unchanged h' (snd (mapM_h f xs h'))" using Cons by simp
      with u have "unchanged h (snd (mapM_h f xs h'))" by (rule unchanged_trans)
      with fa Inr show ?thesis by (cases "mapM_h f xs h'") (auto split: sum.splits)
    qed
  qed
qed

lemma extends_some:
  assumes "\<And>a. extends (f a)"
  shows "extends (some_h f xs)"
  unfolding extends_def
proof (induction xs)
  case Nil
  show ?case by simp
next
  case (Cons a xs)
  show ?case
  proof
    fix h
    obtain r h' where fa: "f a h = (r, h')" by (cases "f a h")
    with assms [of a] have u: "unchanged h h'" by (metis extends_def snd_conv)
    show "unchanged h (snd (some_h f (a # xs) h))"
    proof (cases r)
      case (Inl e)
      with fa u show ?thesis by simp
    next
      case (Inr b)
      have "unchanged h' (snd (some_h f xs h'))" using Cons by simp
      with u have "unchanged h (snd (some_h f xs h'))" by (rule unchanged_trans)
      with fa Inr u show ?thesis by simp
    qed
  qed
qed

lemma extends_return [simp]: "extends (h_return a)"
  by (simp add: readonly_extends)

lemma extends_throw [simp]: "extends (h_throw e)"
  by (simp add: readonly_extends)

lemma extends_read [simp]: "extends (h_read sel r)"
  by (simp add: readonly_extends)

lemma extends_new [simp]:
  "extends (new_coords c)" "extends (new_position p)" "extends (new_path q)"
  "extends (new_tile ps)" "extends (new_avatar a)" "extends (new_state s)"
  by (simp_all add: extends_def unchanged_def new_coords_def new_position_def new_path_def
      new_tile_def new_avatar_def new_state_def initial_part_def)

subsection \<open>Overwriting objects that did not exist in the base store\<close>

lemma write_coords_fresh:
  "unchanged b h \<Longrightarrow> length (coords_objs b) \<le> r \<Longrightarrow> unchanged b (snd (write_coords r c h))"
  by (auto simp: write_coords_def unchanged_def intro: initial_part_update)

lemma write_position_fresh:
  "unchanged b h \<Longrightarrow> length (position_objs b) \<le> r \<Longrightarrow>
   unchanged b (snd (write_position r p h))"
  by (auto simp: write_position_def unchanged_def intro: initial_part_update)

lemma write_tile_fresh:
  "unchanged b h \<Longrightarrow> length (tile_objs b) \<le> r \<Longrightarrow> unchanged b (snd (write_tile r ps h))"
  by (auto simp: write_tile_def unchanged_def intro: initial_part_update)

lemma write_state_fresh:
  "unchanged b h \<Longrightarrow> length (state_objs b) \<le> r \<Longrightarrow> unchanged b (snd (write_state r s h))"
  by (auto simp: write_state_def unchanged_def intro: initial_part_update)

lemma moveOne_h_fresh:
  assumes "unchanged b h" and "length (coords_objs b) \<le> r"
  shows "unchanged b (snd (moveOne_h r d h))"
proof (cases "r < length (coords_objs h)")
  case False
  then show ?thesis using assms(1) by (simp add: moveOne_h_def h_bind_def h_read_def)
next
  case True
  show ?thesis
  proof (cases "moveOne (coords_objs h ! r) d")
    case (Inl e)
    then show ?thesis
      using True assms(1) by (simp add: moveOne_h_def h_bind_def h_read_def h_throw_def)
  next
    case (Inr c')
    have "snd (moveOne_h r d h) = snd (write_coords r c' h)"
      using True Inr
      by (simp add: moveOne_h_def h_bind_def h_read_def h_return_def write_coords_def)
    then show ?thesis using write_coords_fresh [OF assms] by simp
  qed
qed

lemma only_positions_refl [simp]: "only_positions h h"
  by (simp add: only_positions_def)

lemma only_positions_trans:
  "only_positions h h' \<Longrightarrow> only_positions h' h'' \<Longrightarrow> only_positions h h''"
  by (simp add: only_positions_def)

lemma write_position_only: "only_positions h (snd (write_position r p h))"
  by (simp add: write_position_def only_positions_def)

lemma position_rotate_h_fresh:
  assumes "unchanged b h" and "length (position_objs b) \<le> r"
  shows "unchanged b (snd (position_rotate_h r k h)) \<and>
         only_positions h (snd (position_rotate_h r k h))"
proof (cases "r < length (position_objs h)")
  case False
  then show ?thesis using assms(1) by (simp add: position_rotate_h_def h_bind_def h_read_def)
next
  case True
  have "position_rotate_h r k h = write_position r (position_rotate (position_objs h ! r) k) h"
    using True by (simp add: position_rotate_h_def h_bind_def h_read_def)
  then show ?thesis
    using write_position_fresh [OF assms] write_position_only by simp
qed

lemma fresh_path_only_positions:
  "only_positions h h' \<Longrightarrow> fresh_path b h p \<Longrightarrow> fresh_path b h' p"
  by (simp add: only_positions_def fresh_path_def)

lemma path_rotate_h_fresh:
  assumes "unchanged b h" and "fresh_path b h p"
  shows "unchanged b (snd (path_rotate_h k p h)) \<and>
         only_positions h (snd (path_rotate_h k p h))"
proof -
  obtain s e where se: "path_objs h ! p = (s, e)" by (cases "path_objs h ! p")
  from assms(2) se have p: "p < length (path_objs h)"
    and s: "length (position_objs b) \<le> s" and e: "length (position_objs b) \<le> e"
    by (simp_all add: fresh_path_def)
  obtain r1 h1 where 1: "position_rotate_h s k h = (r1, h1)"
    by (cases "position_rotate_h s k h")
  have u1: "unchanged b h1" and o1: "only_positions h h1"
    using position_rotate_h_fresh [OF assms(1) s, of k] 1 by simp_all
  show ?thesis
  proof (cases r1)
    case (Inl err)
    then have "snd (path_rotate_h k p h) = h1"
      using p se 1 by (simp add: path_rotate_h_def h_bind_def h_read_def)
    with u1 o1 show ?thesis by simp
  next
    case (Inr u)
    then have "snd (path_rotate_h k p h) = snd (position_rotate_h e k h1)"
      using p se 1 by (simp add: path_rotate_h_def h_bind_def h_read_def)
    moreover have "unchanged b (snd (position_rotate_h e k h1))"
      and "only_positions h1 (snd (position_rotate_h e k h1))"
      using position_rotate_h_fresh [OF u1 e, of k] by simp_all
    ultimately show ?thesis using o1 by (auto intro: only_positions_trans)
  qed
qed

lemma mapM_path_rotate_fresh:
  assumes "unchanged b h" and "list_all (fresh_path b h) ps"
  shows "unchanged b (snd (mapM_h (path_rotate_h k) ps h)) \<and>
         only_positions h (snd (mapM_h (path_rotate_h k) ps h))"
  using assms
proof (induction ps arbitrary: h)
  case Nil
  then show ?case by simp
next
  case (Cons p ps)
  obtain r1 h1 where 1: "path_rotate_h k p h = (r1, h1)" by (cases "path_rotate_h k p h")
  from Cons.prems have fp: "fresh_path b h p" and fps: "list_all (fresh_path b h) ps"
    by simp_all
  have u1: "unchanged b h1" and o1: "only_positions h h1"
    using path_rotate_h_fresh [OF Cons.prems(1) fp, of k] 1 by simp_all
  show ?case
  proof (cases r1)
    case (Inl err)
    with 1 u1 o1 show ?thesis by simp
  next
    case (Inr u)
    have "list_all (fresh_path b h1) ps"
      using fps o1 by (auto simp: list_all_iff intro: fresh_path_only_positions)
    from Cons.IH [OF u1 this]
    have "unchanged b (snd (mapM_h (path_rotate_h k) ps h1))"
      and "only_positions h1 (snd (mapM_h (path_rotate_h k) ps h1))" by simp_all
    moreover have "snd (mapM_h (path_rotate_h k) (p # ps) h) = snd (mapM_h (path_rotate_h k) ps h1)"
      using 1 Inr by (cases "mapM_h (path_rotate_h k) ps h1") (auto split: sum.splits)
    ultimately show ?thesis using o1 by (auto intro: only_positions_trans)
  qed
qed

lemma tile_rotate_h_fresh:
  assumes "unchanged b h" and "fresh_tile b h t"
  shows "unchanged b (snd (tile_rotate_h t k h))"
proof (cases "0 < js_rem k (int (length DIRECTIONS_CLOCKWISE))")
  case False
  then show ?thesis using assms(1) by (simp add: tile_rotate_h_def)
next
  case True
  let ?a = "js_rem k (int (length DIRECTIONS_CLOCKWISE))"
  let ?ps = "tile_objs h ! t"
  from assms(2) have t: "t < length (tile_objs h)" and tb: "length (tile_objs b) \<le> t"
    and fps: "list_all (fresh_path b h) ?ps"
    by (simp_all add: fresh_tile_def)
  obtain r1 h1 where 1: "mapM_h (path_rotate_h ?a) ?ps h = (r1, h1)"
    by (cases "mapM_h (path_rotate_h ?a) ?ps h")
  have u1: "unchanged b h1"
    using mapM_path_rotate_fresh [OF assms(1) fps, of ?a] 1 by simp
  show ?thesis
  proof (cases r1)
    case (Inl err)
    then have "snd (tile_rotate_h t k h) = h1"
      using True t 1 by (simp add: tile_rotate_h_def h_bind_def h_read_def)
    with u1 show ?thesis by simp
  next
    case (Inr us)
    then have "snd (tile_rotate_h t k h) = snd (write_tile t ?ps h1)"
      using True t 1 by (simp add: tile_rotate_h_def h_bind_def h_read_def)
    with write_tile_fresh [OF u1 tb] show ?thesis by simp
  qed
qed

subsection \<open>Copies are new objects\<close>

lemma unchanged_lengths:
  assumes "unchanged b h"
  shows "length (coords_objs b) \<le> length (coords_objs h)"
    and "length (position_objs b) \<le> length (position_objs h)"
    and "length (path_objs b) \<le> length (path_objs h)"
    and "length (tile_objs b) \<le> length (tile_objs h)"
    and "length (avatar_objs b) \<le> length (avatar_objs h)"
    and "length (state_objs b) \<le> length (state_objs h)"
  using assms by (simp_all add: unchanged_def initial_part_def)

lemma fresh_path_stable: "fresh_path b h p \<Longrightarrow> unchanged h h' \<Longrightarrow> fresh_path b h' p"
  by (auto simp: fresh_path_def unchanged_def initial_part_nth dest: initial_part_length)

lemma fresh_path_base: "fresh_path b' h p \<Longrightarrow> unchanged b b' \<Longrightarrow> fresh_path b h p"
  by (auto simp: fresh_path_def dest: unchanged_lengths(2))

lemma fresh_avatar_stable: "fresh_avatar b h a \<Longrightarrow> unchanged h h' \<Longrightarrow> fresh_avatar b h' a"
  by (auto simp: fresh_avatar_def unchanged_def initial_part_nth dest: initial_part_length)

lemma fresh_avatar_base: "fresh_avatar b' h a \<Longrightarrow> unchanged b b' \<Longrightarrow> fresh_avatar b h a"
  by (auto simp: fresh_avatar_def dest: unchanged_lengths(1) unchanged_lengths(2))

lemma extends_D: "extends m \<Longrightarrow> m h = (r, h') \<Longrightarrow> unchanged h h'"
  by (metis extends_def snd_conv)

lemma extends_position_copy [simp]: "extends (position_copy_h r)"
  by (simp add: position_copy_h_def extends_bind)

lemma extends_coords_copy [simp]: "extends (coords_copy_h r)"
  by (simp add: coords_copy_h_def extends_bind)

lemma position_copy_h_new:
  "position_copy_h r h = (Inr r', h') \<Longrightarrow> length (position_objs h) \<le> r'"
  by (auto simp: position_copy_h_def h_bind_def h_read_def new_position_def split: if_splits)

lemma coords_copy_h_new:
  "coords_copy_h r h = (Inr r', h') \<Longrightarrow> length (coords_objs h) \<le> r'"
  by (auto simp: coords_copy_h_def h_bind_def h_read_def new_coords_def split: if_splits)

lemma extends_path_copy [simp]: "extends (path_copy_h p)"
  by (auto simp: path_copy_h_def intro!: extends_bind split: prod.splits)

lemma h_bind_Inr_D:
  assumes "h_bind m f h = (Inr b, h'')"
  obtains a h' where "m h = (Inr a, h')" and "f a h' = (Inr b, h'')"
  using assms by (auto simp: h_bind_def split: prod.splits sum.splits)

lemma h_read_Inr_D:
  "h_read sel r h = (Inr v, h') \<Longrightarrow> h' = h \<and> r < length (sel h) \<and> v = sel h ! r"
  by (auto simp: h_read_def split: if_splits)

lemma path_copy_h_fresh:
  assumes "path_copy_h p h = (Inr p', h')"
  shows "fresh_path h h' p'"
proof -
  from assms obtain se h0 where 0: "h_read path_objs p h = (Inr se, h0)"
    and a: "(case se of (s, e) \<Rightarrow>
              h_bind (position_copy_h s) (\<lambda>s'.
              h_bind (position_copy_h e) (\<lambda>e'. new_path (s', e')))) h0 = (Inr p', h')"
    unfolding path_copy_h_def by (rule h_bind_Inr_D)
  obtain s e where se: "se = (s, e)" by (cases se)
  from 0 have h0: "h0 = h" by (simp add: h_read_Inr_D)
  from a se h0 obtain s' h1 where 1: "position_copy_h s h = (Inr s', h1)"
    and b: "h_bind (position_copy_h e) (\<lambda>e'. new_path (s', e')) h1 = (Inr p', h')"
    by (auto elim: h_bind_Inr_D)
  from b obtain e' h2 where 2: "position_copy_h e h1 = (Inr e', h2)"
    and 3: "new_path (s', e') h2 = (Inr p', h')"
    by (rule h_bind_Inr_D)
  have u1: "unchanged h h1" using extends_D [OF extends_position_copy 1] .
  have s': "length (position_objs h) \<le> s'" using position_copy_h_new [OF 1] .
  have "length (position_objs h1) \<le> e'" using position_copy_h_new [OF 2] .
  with unchanged_lengths(2) [OF u1] have e': "length (position_objs h) \<le> e'" by simp
  from 3 have "p' = length (path_objs h2)" and "path_objs h' = path_objs h2 @ [(s', e')]"
    by (auto simp: new_path_def)
  with s' e' show ?thesis by (simp add: fresh_path_def)
qed

lemma mapM_h_Cons_Inr_D:
  assumes "mapM_h f (a # as) h = (Inr bs, h'')"
  obtains b h' bs' where "f a h = (Inr b, h')" and "mapM_h f as h' = (Inr bs', h'')"
    and "bs = b # bs'"
  using assms by (auto split: prod.splits sum.splits)

lemma mapM_path_copy_fresh:
  assumes "mapM_h path_copy_h ps h = (Inr ps', h')"
  shows "list_all (fresh_path h h') ps'"
  using assms
proof (induction ps arbitrary: h ps')
  case Nil
  then show ?case by auto
next
  case (Cons p ps)
  from Cons.prems obtain q h1 qs where 1: "path_copy_h p h = (Inr q, h1)"
    and 2: "mapM_h path_copy_h ps h1 = (Inr qs, h')" and 3: "ps' = q # qs"
    by (rule mapM_h_Cons_Inr_D)
  have u1: "unchanged h h1" using extends_D [OF extends_path_copy 1] .
  have u2: "unchanged h1 h'" using extends_D [OF extends_mapM 2] by simp
  have "fresh_path h h' q"
    using path_copy_h_fresh [OF 1] u2 by (rule fresh_path_stable)
  moreover have "list_all (fresh_path h h') qs"
    using Cons.IH [OF 2] u1 by (auto simp: list_all_iff intro: fresh_path_base)
  ultimately show ?case using 3 by simp
qed

lemma extends_tile_copy [simp]: "extends (tile_copy_h t k)"
  unfolding extends_def
proof
  fix h
  show "unchanged h (snd (tile_copy_h t k h))"
  proof (cases "t < length (tile_objs h)")
    case False
    then show ?thesis by (simp add: tile_copy_h_def h_bind_def h_read_def)
  next
    case True
    let ?ps = "tile_objs h ! t"
    obtain r1 h1 where 1: "mapM_h path_copy_h ?ps h = (r1, h1)"
      by (cases "mapM_h path_copy_h ?ps h")
    have u1: "unchanged h h1" using extends_D [OF extends_mapM 1] by simp
    show ?thesis
    proof (cases r1)
      case (Inl e)
      then have "snd (tile_copy_h t k h) = h1"
        using True 1 by (simp add: tile_copy_h_def h_bind_def h_read_def)
      with u1 show ?thesis by simp
    next
      case (Inr ps')
      let ?t' = "length (tile_objs h1)"
      let ?h2 = "h1\<lparr>tile_objs := tile_objs h1 @ [ps']\<rparr>"
      have f1: "list_all (fresh_path h h1) ps'"
        using mapM_path_copy_fresh 1 Inr by simp
      have u2: "unchanged h ?h2"
        using u1 by (simp add: unchanged_def initial_part_append)
      have "list_all (fresh_path h ?h2) ps'"
        using f1 by (simp add: list_all_iff fresh_path_def)
      then have ft: "fresh_tile h ?h2 ?t'"
        using unchanged_lengths(4) [OF u1] by (simp add: fresh_tile_def)
      show ?thesis
      proof (cases "0 < k")
        case False
        then have "snd (tile_copy_h t k h) = ?h2"
          using True 1 Inr
          by (simp add: tile_copy_h_def h_bind_def h_read_def new_tile_def h_return_def)
        with u2 show ?thesis by simp
      next
        case k: True
        have "snd (tile_copy_h t k h) = snd (tile_rotate_h ?t' k ?h2)"
          using True 1 Inr k
          by (simp add: tile_copy_h_def h_bind_def h_read_def new_tile_def h_return_def
              split: prod.splits sum.splits)
        with tile_rotate_h_fresh [OF u2 ft, of k] show ?thesis by simp
      qed
    qed
  qed
qed

lemma extends_avatar_copy [simp]: "extends (avatar_copy_h a)"
  by (auto simp: avatar_copy_h_def intro!: extends_bind split: prod.splits)

lemma avatar_copy_h_fresh:
  assumes "avatar_copy_h a h = (Inr a', h')"
  shows "fresh_avatar h h' a'"
proof -
  from assms obtain cp h0 where 0: "h_read avatar_objs a h = (Inr cp, h0)"
    and r: "(case cp of (c, p) \<Rightarrow>
              h_bind (coords_copy_h c) (\<lambda>c'.
              h_bind (position_copy_h p) (\<lambda>p'. new_avatar (c', p')))) h0 = (Inr a', h')"
    unfolding avatar_copy_h_def by (rule h_bind_Inr_D)
  obtain c p where cp: "cp = (c, p)" by (cases cp)
  from 0 have h0: "h0 = h" by (simp add: h_read_Inr_D)
  from r cp h0 obtain c' h1 where 1: "coords_copy_h c h = (Inr c', h1)"
    and b: "h_bind (position_copy_h p) (\<lambda>p'. new_avatar (c', p')) h1 = (Inr a', h')"
    by (auto elim: h_bind_Inr_D)
  from b obtain p' h2 where 2: "position_copy_h p h1 = (Inr p', h2)"
    and 3: "new_avatar (c', p') h2 = (Inr a', h')"
    by (rule h_bind_Inr_D)
  have u1: "unchanged h h1" using extends_D [OF extends_coords_copy 1] .
  have c': "length (coords_objs h) \<le> c'" using coords_copy_h_new [OF 1] .
  have "length (position_objs h1) \<le> p'" using position_copy_h_new [OF 2] .
  with unchanged_lengths(2) [OF u1] have p': "length (position_objs h) \<le> p'" by simp
  from 3 have "a' = length (avatar_objs h2)" and "avatar_objs h' = avatar_objs h2 @ [(c', p')]"
    by (auto simp: new_avatar_def)
  with c' p' show ?thesis by (simp add: fresh_avatar_def)
qed

lemma extends_copy_entry [simp]:
  "extends (case e of (pid, a) \<Rightarrow> h_bind (avatar_copy_h a) (\<lambda>a'. h_return (pid, a')))"
  "extends (case d of (c, t) \<Rightarrow> h_bind (tile_copy_h t 0) (\<lambda>t'. h_return (c, t')))"
  by (auto split: prod.splits intro!: extends_bind)

lemma mapM_avatar_copy_fresh:
  assumes "mapM_h (\<lambda>(pid, a). h_bind (avatar_copy_h a) (\<lambda>a'. h_return (pid, a'))) avs h
             = (Inr avs', h')"
  shows "list_all (\<lambda>(pid, a). fresh_avatar h h' a) avs'"
  using assms
proof (induction avs arbitrary: h avs')
  case Nil
  then show ?case by auto
next
  case (Cons e avs)
  let ?f = "\<lambda>(pid, a). h_bind (avatar_copy_h a) (\<lambda>a'. h_return (pid, a'))"
  obtain pid a where e: "e = (pid, a)" by (cases e)
  from Cons.prems obtain q h1 qs where 1: "?f e h = (Inr q, h1)"
    and 2: "mapM_h ?f avs h1 = (Inr qs, h')" and 3: "avs' = q # qs"
    by (rule mapM_h_Cons_Inr_D)
  from 1 e obtain a' h1' where 4: "avatar_copy_h a h = (Inr a', h1')"
    and 5: "h_return (pid, a') h1' = (Inr q, h1)"
    by (auto elim: h_bind_Inr_D)
  from 5 have q: "q = (pid, a')" and h1: "h1' = h1" by (simp_all add: h_return_def)
  have u1: "unchanged h h1" using extends_D [OF extends_avatar_copy 4] h1 by simp
  have "extends (mapM_h ?f avs)" by (rule extends_mapM) simp
  then have u2: "unchanged h1 h'" using 2 by (rule extends_D)
  have "fresh_avatar h h' a'"
    using avatar_copy_h_fresh [OF 4] h1 u2 by (auto intro: fresh_avatar_stable)
  moreover have "list_all (\<lambda>(pid, a). fresh_avatar h h' a) qs"
    using Cons.IH [OF 2] u1 by (auto simp: list_all_iff intro: fresh_avatar_base)
  ultimately show ?case using 3 q by simp
qed

lemma extends_boardState_copy [simp]: "extends (boardState_copy_h st)"
  unfolding boardState_copy_h_def
  by (intro extends_bind extends_read) (auto split: prod.splits intro!: extends_bind extends_mapM)

lemma boardState_copy_h_fresh:
  assumes "boardState_copy_h st h = (Inr st', h')"
  shows "fresh_state h h' st'"
proof -
  let ?ft = "\<lambda>(c, t). h_bind (tile_copy_h t 0) (\<lambda>t'. h_return (c, t'))"
  let ?fa = "\<lambda>(pid, a). h_bind (avatar_copy_h a) (\<lambda>a'. h_return (pid, a'))"
  from assms obtain s h0 where 0: "h_read state_objs st h = (Inr s, h0)"
    and r: "(case s of (ts, avs) \<Rightarrow>
               h_bind (mapM_h ?ft ts) (\<lambda>ts'.
               h_bind (mapM_h ?fa avs) (\<lambda>avs'. new_state (ts', avs')))) h0 = (Inr st', h')"
    unfolding boardState_copy_h_def by (rule h_bind_Inr_D)
  obtain ts avs where s: "s = (ts, avs)" by (cases s)
  from 0 have h0: "h0 = h" by (simp add: h_read_Inr_D)
  from r s h0 obtain ts' h1 where 1: "mapM_h ?ft ts h = (Inr ts', h1)"
    and b: "h_bind (mapM_h ?fa avs) (\<lambda>avs'. new_state (ts', avs')) h1 = (Inr st', h')"
    by (auto elim: h_bind_Inr_D)
  from b obtain avs' h2 where 2: "mapM_h ?fa avs h1 = (Inr avs', h2)"
    and 3: "new_state (ts', avs') h2 = (Inr st', h')"
    by (rule h_bind_Inr_D)
  have "extends (mapM_h ?ft ts)" by (rule extends_mapM) simp
  then have u1: "unchanged h h1" using 1 by (rule extends_D)
  have "extends (mapM_h ?fa avs)" by (rule extends_mapM) simp
  then have u2: "unchanged h1 h2" using 2 by (rule extends_D)
  have f: "list_all (\<lambda>(pid, a). fresh_avatar h h2 a) avs'"
    using mapM_avatar_copy_fresh [OF 2] u1 by (auto simp: list_all_iff intro: fresh_avatar_base)
  from 3 have st': "st' = length (state_objs h2)"
    and h': "h' = h2\<lparr>state_objs := state_objs h2 @ [(ts', avs')]\<rparr>"
    by (auto simp: new_state_def)
  have "length (state_objs h) \<le> st'"
    using st' unchanged_lengths(6) [OF u1] unchanged_lengths(6) [OF u2] by simp
  moreover have "list_all (\<lambda>(pid, a). fresh_avatar h h' a) avs'"
    using f h' by (simp add: list_all_iff fresh_avatar_def)
  ultimately show ?thesis using st' h' by (simp add: fresh_state_def)
qed

lemma fresh_state_stable: "fresh_state b h st \<Longrightarrow> unchanged h h' \<Longrightarrow> fresh_state b h' st"
proof -
  assume f: "fresh_state b h st" and u: "unchanged h h'"
  from f have st: "st < length (state_objs h)" by (simp add: fresh_state_def)
  have eq: "state_objs h' ! st = state_objs h ! st"
    using u st by (simp add: unchanged_def initial_part_nth)
  have "st < length (state_objs h')" using st unchanged_lengths(6) [OF u] by simp
  moreover have "list_all (\<lambda>(pid, a). fresh_avatar b h' a) (snd (state_objs h ! st))"
    using f u by (auto simp: fresh_state_def list_all_iff intro: fresh_avatar_stable)
  ultimately show ?thesis using f eq by (simp add: fresh_state_def)
qed

subsection \<open>Reads\<close>

lemma readonly_path_value [simp]: "readonly (path_value_h p)"
  by (auto simp: path_value_h_def intro!: readonly_bind split: prod.splits)

lemma readonly_tile_value [simp]: "readonly (tile_value_h t)"
  by (auto simp: tile_value_h_def intro!: readonly_bind readonly_mapM)

lemma readonly_tile_isEqualTo [simp]: "readonly (tile_isEqualTo_h a b)"
  by (auto simp: tile_isEqualTo_h_def intro!: readonly_bind)

lemma readonly_tile_getEndingPosition [simp]: "readonly (tile_getEndingPosition_h t p)"
  by (auto simp: tile_getEndingPosition_h_def intro!: readonly_bind split: sum.splits)

lemma readonly_getAvatar [simp]: "readonly (getAvatar_h st pid)"
  by (auto simp: getAvatar_h_def intro!: readonly_bind split: prod.splits)

lemma readonly_getTile [simp]: "readonly (getTile_h st c)"
  by (auto simp: getTile_h_def intro!: readonly_bind split: prod.splits)

lemma readonly_hasNeighboringTiles [simp]: "readonly (hasNeighboringTiles_h st c)"
  by (auto simp: hasNeighboringTiles_h_def intro!: readonly_bind split: prod.splits)

lemma readonly_isAvatarOnOutsidePosition [simp]: "readonly (isAvatarOnOutsidePosition_h c p)"
  by (auto simp: isAvatarOnOutsidePosition_h_def intro!: readonly_bind)

lemma readonly_avatarOutside [simp]: "readonly (avatarOutside_h st pid)"
  by (auto simp: avatarOutside_h_def intro!: readonly_bind split: option.splits prod.splits)

lemma readonly_D: "readonly m \<Longrightarrow> m h = (r, h') \<Longrightarrow> h' = h"
  by (metis readonly_def snd_conv)

subsection \<open>Placing a tile on a copy of the board\<close>

lemma moveAvatar_h_fresh:
  assumes "unchanged b h" and "fresh_avatar b h a"
  shows "unchanged b (snd (moveAvatar_h fuel tvs c a h)) \<and>
         avatar_objs (snd (moveAvatar_h fuel tvs c a h)) = avatar_objs h"
proof -
  obtain cr pr where cp: "avatar_objs h ! a = (cr, pr)" by (cases "avatar_objs h ! a")
  from assms(2) cp have a: "a < length (avatar_objs h)"
    and cr: "length (coords_objs b) \<le> cr" and pr: "length (position_objs b) \<le> pr"
    by (simp_all add: fresh_avatar_def)
  show ?thesis
  proof (cases "cr < length (coords_objs h) \<and> pr < length (position_objs h)")
    case False
    then show ?thesis
      using a cp assms(1) by (auto simp: moveAvatar_h_def h_bind_def h_read_def)
  next
    case True
    let ?cv = "coords_objs h ! cr" and ?pv = "position_objs h ! pr"
    let ?m = "if moveOne ?cv (direction ?pv) = Inr c
              then moveAvatar fuel tvs \<lparr>av_coords = ?cv, av_position = ?pv\<rparr>
              else Inr (Some \<lparr>av_coords = ?cv, av_position = ?pv\<rparr>)"
    have unf: "moveAvatar_h fuel tvs c a h =
          (case ?m of
             Inl e \<Rightarrow> h_throw e
           | Inr None \<Rightarrow> h_return False
           | Inr (Some av') \<Rightarrow>
               h_bind (write_coords cr (av_coords av')) (\<lambda>u.
               h_bind (write_position pr (av_position av')) (\<lambda>u.
               h_return True))) h"
      using a cp True by (simp add: moveAvatar_h_def h_bind_def h_read_def)
    show ?thesis
    proof (cases ?m)
      case (Inl e)
      then show ?thesis using unf assms(1) by simp
    next
      case (Inr r)
      show ?thesis
      proof (cases r)
        case None
        then show ?thesis using unf Inr assms(1) by simp
      next
        case (Some av')
        let ?h1 = "h\<lparr>coords_objs := (coords_objs h)[cr := av_coords av']\<rparr>"
        let ?h2 = "?h1\<lparr>position_objs := (position_objs ?h1)[pr := av_position av']\<rparr>"
        have "snd (moveAvatar_h fuel tvs c a h) = ?h2"
          using unf Inr Some True
          by (simp add: h_bind_def write_coords_def write_position_def h_return_def)
        moreover have "unchanged b ?h1"
          using write_coords_fresh [OF assms(1) cr, of "av_coords av'"] True
          by (simp add: write_coords_def)
        then have "unchanged b ?h2"
          using write_position_fresh [OF _ pr, of ?h1 "av_position av'"] True
          by (simp add: write_position_def)
        ultimately show ?thesis by simp
      qed
    qed
  qed
qed

lemma updateAvatars_h_fresh:
  assumes "unchanged b h" and "list_all (\<lambda>(pid, a). fresh_avatar b h a) avs"
  shows "unchanged b (snd (updateAvatars_h fuel tvs c avs h))"
  using assms
proof (induction avs arbitrary: h)
  case Nil
  then show ?case by simp
next
  case (Cons e avs)
  obtain pid a where e: "e = (pid, a)" by (cases e)
  obtain r1 h1 where 1: "moveAvatar_h fuel tvs c a h = (r1, h1)"
    by (cases "moveAvatar_h fuel tvs c a h")
  from Cons.prems e have fa: "fresh_avatar b h a"
    and fs: "list_all (\<lambda>(pid, a). fresh_avatar b h a) avs" by simp_all
  have u1: "unchanged b h1" and av: "avatar_objs h1 = avatar_objs h"
    using moveAvatar_h_fresh [OF Cons.prems(1) fa, of fuel tvs c] 1 by simp_all
  show ?case
  proof (cases r1)
    case (Inl err)
    with 1 e u1 show ?thesis by simp
  next
    case (Inr kept)
    have "list_all (\<lambda>(pid, a). fresh_avatar b h1 a) avs"
      using fs av by (simp add: list_all_iff fresh_avatar_def)
    from Cons.IH [OF u1 this]
    have "unchanged b (snd (updateAvatars_h fuel tvs c avs h1))" .
    moreover have "snd (updateAvatars_h fuel tvs c (e # avs) h)
                     = snd (updateAvatars_h fuel tvs c avs h1)"
      using 1 Inr e by (cases "updateAvatars_h fuel tvs c avs h1") (auto split: sum.splits)
    ultimately show ?thesis by simp
  qed
qed

lemma placeTile_h_fresh:
  assumes "unchanged b h" and "fresh_state b h st"
  shows "unchanged b (snd (placeTile_h st t c h))"
proof -
  obtain ts avs where s: "state_objs h ! st = (ts, avs)" by (cases "state_objs h ! st")
  from assms(2) s have st: "st < length (state_objs h)"
    and stb: "length (state_objs b) \<le> st"
    and fs: "list_all (\<lambda>(pid, a). fresh_avatar b h a) avs"
    by (simp_all add: fresh_state_def)
  show ?thesis
  proof (cases "c < length (coords_objs h) \<and> map_of ts (coords_objs h ! c) = None")
    case False
    then show ?thesis
      using st s assms(1) by (auto simp: placeTile_h_def h_bind_def h_read_def h_throw_def)
  next
    case True
    let ?cv = "coords_objs h ! c"
    let ?h1 = "h\<lparr>state_objs := (state_objs h)[st := ((?cv, t) # ts, avs)]\<rparr>"
    let ?rd = "mapM_h (\<lambda>(k, r). h_bind (tile_value_h r) (\<lambda>v. h_return (k, v))) ((?cv, t) # ts)"
    have unf: "placeTile_h st t c h =
           h_bind ?rd (\<lambda>tvs.
           h_bind (updateAvatars_h (Suc (8 * length tvs)) tvs ?cv avs) (\<lambda>avs'.
           write_state st ((?cv, t) # ts, avs'))) ?h1"
      using st s True
      by (simp add: placeTile_h_def h_bind_def h_read_def write_state_def)
    have u1: "unchanged b ?h1"
      using write_state_fresh [OF assms(1) stb, of "((?cv, t) # ts, avs)"] st
      by (simp add: write_state_def)
    have f1: "list_all (\<lambda>(pid, a). fresh_avatar b ?h1 a) avs"
      using fs by (simp add: list_all_iff fresh_avatar_def)
    have "readonly ?rd"
      by (rule readonly_mapM) (auto split: prod.splits intro!: readonly_bind)
    then have rd: "snd (?rd ?h1) = ?h1" by (simp add: readonly_def)
    obtain r1 where 1: "?rd ?h1 = (r1, ?h1)" using rd by (cases "?rd ?h1") simp
    show ?thesis
    proof (cases r1)
      case (Inl e)
      with unf 1 u1 show ?thesis by (simp add: h_bind_Inl)
    next
      case (Inr tvs)
      let ?up = "updateAvatars_h (Suc (8 * length tvs)) tvs ?cv avs"
      obtain r2 h2 where 2: "?up ?h1 = (r2, h2)" by (cases "?up ?h1")
      have u2: "unchanged b h2"
        using updateAvatars_h_fresh [OF u1 f1, of "Suc (8 * length tvs)" tvs ?cv] 2 by simp
      show ?thesis
      proof (cases r2)
        case (Inl e)
        with unf 1 Inr 2 u2 show ?thesis by (simp add: h_bind_Inr h_bind_Inl)
      next
        case r2: (Inr avs')
        have "snd (placeTile_h st t c h) = snd (write_state st ((?cv, t) # ts, avs') h2)"
          using unf 1 Inr 2 r2 by (simp add: h_bind_Inr)
        with write_state_fresh [OF u2 stb] show ?thesis by simp
      qed
    qed
  qed
qed

subsection \<open>The rule checker's queries\<close>

lemma extends_preserves: "extends m \<Longrightarrow> preserves b m"
  unfolding extends_def preserves_def by (blast intro: unchanged_trans)

lemma preserves_bind:
  assumes "preserves b m" and "\<And>a. preserves b (f a)"
  shows "preserves b (h_bind m f)"
  unfolding preserves_def
proof (intro allI impI)
  fix h assume u: "unchanged b h"
  obtain r h' where mh: "m h = (r, h')" by (cases "m h")
  with assms(1) u have u': "unchanged b h'" by (metis preserves_def snd_conv)
  show "unchanged b (snd (h_bind m f h))"
  proof (cases r)
    case (Inl e)
    with mh u' show ?thesis by (simp add: h_bind_Inl)
  next
    case (Inr a)
    with mh u' assms(2) [of a] show ?thesis by (simp add: h_bind_Inr preserves_def)
  qed
qed

lemma preserves_catch:
  assumes "preserves b m" and "\<And>e. preserves b (f e)"
  shows "preserves b (h_catch m f)"
  unfolding preserves_def
proof (intro allI impI)
  fix h assume u: "unchanged b h"
  obtain r h' where mh: "m h = (r, h')" by (cases "m h")
  with assms(1) u have u': "unchanged b h'" by (metis preserves_def snd_conv)
  show "unchanged b (snd (h_catch m f h))"
  proof (cases r)
    case (Inl e)
    with mh u' assms(2) [of e] show ?thesis by (simp add: h_catch_Inl preserves_def)
  next
    case (Inr a)
    with mh u' show ?thesis by (simp add: h_catch_Inr)
  qed
qed

lemma preserves_moveOne:
  "length (coords_objs b) \<le> r \<Longrightarrow> preserves b (moveOne_h r d)"
  by (simp add: preserves_def moveOne_h_fresh)

text \<open>A new object, then a computation that may overwrite it.\<close>

lemma extends_bind_new:
  assumes "extends m"
    and "\<And>h a h'. m h = (Inr a, h') \<Longrightarrow> preserves h (f a)"
  shows "extends (h_bind m f)"
  unfolding extends_def
proof
  fix h
  obtain r h' where mh: "m h = (r, h')" by (cases "m h")
  have u: "unchanged h h'" using extends_D [OF assms(1) mh] .
  show "unchanged h (snd (h_bind m f h))"
  proof (cases r)
    case (Inl e)
    with mh u show ?thesis by (simp add: h_bind_Inl)
  next
    case (Inr a)
    with mh have "preserves h (f a)" by (auto intro: assms(2))
    with u have "unchanged h (snd (f a h'))" by (simp add: preserves_def)
    with mh Inr show ?thesis by (simp add: h_bind_Inr)
  qed
qed

lemma extends_checkPlayerAdjacency [simp]: "extends (checkPlayerAdjacency_h av tp)"
proof (cases av)
  case None
  then show ?thesis by (simp add: checkPlayerAdjacency_h_def)
next
  case (Some a)
  have body: "extends
      (h_bind (coords_copy_h cr) (\<lambda>copied.
       h_bind (h_read position_objs pr) (\<lambda>pv.
       h_bind (moveOne_h copied (direction pv)) (\<lambda>newCoords.
       h_bind (h_read coords_objs newCoords) (\<lambda>nv.
       h_bind (h_read coords_objs (tph_coords tp)) (\<lambda>tv.
       h_return (coords_isEqualTo nv tv)))))))" for cr pr
  proof (rule extends_bind_new)
    show "extends (coords_copy_h cr)" by simp
  next
    fix h copied h'
    assume "coords_copy_h cr h = (Inr copied, h')"
    then have new: "length (coords_objs h) \<le> copied" by (rule coords_copy_h_new)
    show "preserves h
           (h_bind (h_read position_objs pr) (\<lambda>pv.
            h_bind (moveOne_h copied (direction pv)) (\<lambda>newCoords.
            h_bind (h_read coords_objs newCoords) (\<lambda>nv.
            h_bind (h_read coords_objs (tph_coords tp)) (\<lambda>tv.
            h_return (coords_isEqualTo nv tv))))))"
      by (intro preserves_bind preserves_moveOne new extends_preserves) simp_all
  qed
  show ?thesis
    unfolding checkPlayerAdjacency_h_def Some option.case
    by (intro extends_bind extends_read) (auto split: prod.splits intro!: extends_catch body)
qed

lemma extends_reads [simp]:
  "extends (tile_isEqualTo_h a b)" "extends (tile_getEndingPosition_h t p)"
  "extends (getAvatar_h st pid)" "extends (getTile_h st c)"
  "extends (hasNeighboringTiles_h st c)" "extends (isAvatarOnOutsidePosition_h c p)"
  "extends (avatarOutside_h st pid)"
  by (simp_all add: readonly_extends)

lemma extends_isEqualToRotated [simp]: "extends (isEqualToRotated_h a b)"
  unfolding isEqualToRotated_h_def by (auto intro!: extends_bind)

lemma extends_checkPlacementLegality [simp]: "extends (checkPlacementLegality_h st tp pl)"
  unfolding checkPlacementLegality_h_def
  by (auto split: option.splits intro!: extends_bind extends_some)

lemma snd_bind_readonly:
  assumes "\<And>a. readonly (f a)"
  shows "snd (h_bind m f h) = snd (m h)"
proof (cases "m h")
  case (Pair r h')
  show ?thesis
  proof (cases r)
    case (Inl e)
    with Pair show ?thesis by (simp add: h_bind_Inl)
  next
    case (Inr a)
    with Pair assms [of a] show ?thesis by (simp add: h_bind_Inr readonly_def)
  qed
qed

lemma preserves_place_then_read:
  assumes "fresh_state b h st" and "unchanged b h" and "\<And>u. readonly (g u)"
  shows "unchanged b (snd (h_bind (placeTile_h st t c) (\<lambda>u. g u) h))"
  using placeTile_h_fresh [OF assms(2,1), of t c] by (simp add: snd_bind_readonly assms(3))

lemma extends_checkPlacementValidity [simp]: "extends (checkPlacementValidity_h st tp pl)"
  unfolding extends_def
proof
  fix h
  obtain r1 h1 where 1: "boardState_copy_h st h = (r1, h1)" by (cases "boardState_copy_h st h")
  have u1: "unchanged h h1" using extends_D [OF extends_boardState_copy 1] .
  show "unchanged h (snd (checkPlacementValidity_h st tp pl h))"
  proof (cases r1)
    case (Inl e)
    with 1 u1 show ?thesis by (simp add: checkPlacementValidity_h_def h_bind_Inl)
  next
    case (Inr bc)
    with 1 have f: "fresh_state h h1 bc" by (auto intro: boardState_copy_h_fresh)
    have "snd (checkPlacementValidity_h st tp pl h) =
            snd (h_bind (placeTile_h bc (tph_tile tp) (tph_coords tp)) (\<lambda>u.
                 h_bind (avatarOutside_h bc (ph_id pl)) (\<lambda>outside.
                 h_return (\<not> outside))) h1)"
      using 1 Inr by (simp add: checkPlacementValidity_h_def h_bind_Inr)
    also have "unchanged h \<dots>"
      by (rule preserves_place_then_read [OF f u1]) (auto intro!: readonly_bind)
    finally show ?thesis .
  qed
qed

lemma extends_testRotations [simp]: "extends (testRotations_h st c pid t js)"
  unfolding extends_def
proof (induction js)
  case Nil
  show ?case by simp
next
  case (Cons j js)
  show ?case
  proof
    fix h
    let ?body = "h_bind (boardState_copy_h st) (\<lambda>boardCopy.
                 h_bind (tile_copy_h t j) (\<lambda>tileCopy.
                 h_bind (placeTile_h boardCopy tileCopy c) (\<lambda>u.
                 avatarOutside_h boardCopy pid)))"
    have body: "unchanged h (snd (?body h))"
    proof -
      obtain r1 h1 where 1: "boardState_copy_h st h = (r1, h1)"
        by (cases "boardState_copy_h st h")
      have u1: "unchanged h h1" using extends_D [OF extends_boardState_copy 1] .
      show ?thesis
      proof (cases r1)
        case (Inl e)
        with 1 u1 show ?thesis by (simp add: h_bind_Inl)
      next
        case (Inr bc)
        with 1 have f1: "fresh_state h h1 bc" by (auto intro: boardState_copy_h_fresh)
        obtain r2 h2 where 2: "tile_copy_h t j h1 = (r2, h2)" by (cases "tile_copy_h t j h1")
        have u12: "unchanged h1 h2" using extends_D [OF extends_tile_copy 2] .
        have u2: "unchanged h h2" using u1 u12 by (rule unchanged_trans)
        have f2: "fresh_state h h2 bc" using f1 u12 by (rule fresh_state_stable)
        show ?thesis
        proof (cases r2)
          case (Inl e)
          with 1 Inr 2 u2 show ?thesis by (simp add: h_bind_Inr h_bind_Inl)
        next
          case r2: (Inr tc)
          have "snd (?body h) =
                  snd (h_bind (placeTile_h bc tc c) (\<lambda>u. avatarOutside_h bc pid) h2)"
            using 1 Inr 2 r2 by (simp add: h_bind_Inr)
          also have "unchanged h \<dots>"
            by (rule preserves_place_then_read [OF f2 u2]) simp
          finally show ?thesis .
        qed
      qed
    qed
    obtain r h' where b: "?body h = (r, h')" by (cases "?body h")
    with body have u: "unchanged h h'" by simp
    show "unchanged h (snd (testRotations_h st c pid t (j # js) h))"
    proof (cases r)
      case (Inl e)
      with b u show ?thesis by simp
    next
      case (Inr outside)
      have "unchanged h' (snd (testRotations_h st c pid t js h'))" using Cons by simp
      with u have "unchanged h (snd (testRotations_h st c pid t js h'))"
        by (rule unchanged_trans)
      with b Inr u show ?thesis by simp
    qed
  qed
qed

lemma extends_doesPlayerHaveValidMove [simp]: "extends (doesPlayerHaveValidMove_h st c pl)"
  by (simp add: doesPlayerHaveValidMove_h_def extends_some)

lemma extends_checkHandValidity [simp]: "extends (checkHandValidity_h st tp pl)"
  by (auto simp: checkHandValidity_h_def intro!: extends_bind)

lemma extends_canTakeAction [simp]: "extends (canTakeAction_h st tp pl)"
  by (auto simp: canTakeAction_h_def intro!: extends_bind)

lemma extends_checkIsMoveOnBoard [simp]: "extends (checkIsMoveOnBoard_h c t p)"
  unfolding checkIsMoveOnBoard_h_def
proof (rule extends_bind_new)
  show "extends (coords_copy_h c)" by simp
next
  fix h coordsCopy h'
  assume "coords_copy_h c h = (Inr coordsCopy, h')"
  then have new: "length (coords_objs h) \<le> coordsCopy" by (rule coords_copy_h_new)
  show "preserves h
         (h_bind (tile_getEndingPosition_h t p) (\<lambda>ending.
          h_catch (h_bind (moveOne_h coordsCopy (direction ending)) (\<lambda>moved. h_return True))
            (\<lambda>e. h_return False)))"
    by (intro preserves_bind preserves_catch preserves_moveOne new extends_preserves)
      simp_all
qed

lemma extends_canPlaceAvatar [simp]: "extends (canPlaceAvatar_h st playerId c t p)"
  unfolding canPlaceAvatar_h_def by (auto intro!: extends_bind)

subsection \<open>The values of unchanged objects\<close>

lemma stable_D0: "stable m \<Longrightarrow> unchanged h h' \<Longrightarrow> fst (m h) = Inr v \<Longrightarrow> fst (m h') = Inr v"
  unfolding stable_def by blast

lemma stable_return [simp]: "stable (h_return a)"
  by (simp add: stable_def h_return_def)

lemma stable_read_sel:
  assumes "\<And>h h'. unchanged h h' \<Longrightarrow> initial_part (sel h) (sel h')"
  shows "stable (h_read sel r)"
  unfolding stable_def
proof (intro allI impI)
  fix h h' v
  assume a: "unchanged h h' \<and> fst (h_read sel r h) = Inr v"
  then have r: "r < length (sel h)" and v: "v = sel h ! r"
    by (auto simp: h_read_def split: if_splits)
  from a have i: "initial_part (sel h) (sel h')" by (simp add: assms)
  have "r < length (sel h')" using r initial_part_length [OF i] by simp
  moreover have "sel h' ! r = sel h ! r" using i r by (rule initial_part_nth)
  ultimately show "fst (h_read sel r h') = Inr v" using v by (simp add: h_read_def)
qed

lemma stable_read [simp]:
  "stable (h_read coords_objs r)" "stable (h_read position_objs r)"
  "stable (h_read path_objs r)" "stable (h_read tile_objs r)"
  "stable (h_read avatar_objs r)" "stable (h_read state_objs r)"
  by (rule stable_read_sel, simp add: unchanged_def)+

lemma stable_I:
  assumes "\<And>h h' v. unchanged h h' \<Longrightarrow> fst (m h) = Inr v \<Longrightarrow> fst (m h') = Inr v"
  shows "stable m"
  unfolding stable_def using assms by blast

lemma stable_bind:
  assumes "stable m" and "readonly m" and "\<And>a. stable (f a)"
  shows "stable (h_bind m f)"
proof (rule stable_I)
  fix h h' v
  assume u: "unchanged h h'" and b: "fst (h_bind m f h) = Inr v"
  have ro: "snd (m k) = k" for k using assms(2) by (simp add: readonly_def)
  obtain r where mh: "m h = (r, h)" using ro [of h] by (cases "m h") simp
  obtain x where r: "r = Inr x"
  proof (cases r)
    case (Inl e)
    with mh have "h_bind m f h = (Inl e, h)" by (simp add: h_bind_def)
    with b show ?thesis by simp
  next
    case (Inr x)
    then show ?thesis by (rule that)
  qed
  have "h_bind m f h = f x h" using mh r by (simp add: h_bind_def)
  with b have fx: "fst (f x h) = Inr v" by simp
  have "fst (m h) = Inr x" using mh r by simp
  with assms(1) u have "fst (m h') = Inr x" by (rule stable_D0)
  then have "m h' = (Inr x, h')" using ro [of h'] by (cases "m h'") simp
  then have "h_bind m f h' = f x h'" by (simp add: h_bind_def)
  moreover have "fst (f x h') = Inr v" using assms(3) [of x] u fx by (rule stable_D0)
  ultimately show "fst (h_bind m f h') = Inr v" by simp
qed

lemma stable_mapM:
  assumes "\<And>a. stable (f a)" and "\<And>a. readonly (f a)"
  shows "stable (mapM_h f xs)"
proof (induction xs)
  case Nil
  show ?case by (rule stable_I) simp
next
  case (Cons a xs)
  show ?case
  proof (rule stable_I)
    fix h h' v
    assume u: "unchanged h h'" and p: "fst (mapM_h f (a # xs) h) = Inr v"
    have ro1: "snd (f a k) = k" for k
      using assms(2) [of a] by (simp add: readonly_def)
    have ro2: "snd (mapM_h f xs k) = k" for k
      using readonly_mapM [of f xs, OF assms(2)] by (simp add: readonly_def)
    obtain r where 1: "f a h = (r, h)" using ro1 [of h] by (cases "f a h") simp
    obtain rs where 2: "mapM_h f xs h = (rs, h)" using ro2 [of h] by (cases "mapM_h f xs h") simp
    from p 1 obtain b where r: "r = Inr b"
      by (cases r) simp_all
    from p 1 2 r obtain bs where rs: "rs = Inr bs"
      by (cases rs) simp_all
    from p 1 2 r rs have v: "v = b # bs" by simp
    have "fst (f a h) = Inr b" using 1 r by simp
    with assms(1) [of a] u have "fst (f a h') = Inr b" by (rule stable_D0)
    then have 3: "f a h' = (Inr b, h')" using ro1 [of h'] by (cases "f a h'") simp
    have "fst (mapM_h f xs h) = Inr bs" using 2 rs by simp
    with Cons u have "fst (mapM_h f xs h') = Inr bs" by (rule stable_D0)
    then have 4: "mapM_h f xs h' = (Inr bs, h')"
      using ro2 [of h'] by (cases "mapM_h f xs h'") simp
    show "fst (mapM_h f (a # xs) h') = Inr v" using 3 4 v by simp
  qed
qed

lemma stable_path_value [simp]: "stable (path_value_h p)"
  unfolding path_value_h_def
  by (intro stable_bind stable_read readonly_read) (simp_all split: prod.splits add: stable_bind readonly_bind)

lemma stable_tile_value [simp]: "stable (tile_value_h t)"
  unfolding tile_value_h_def
  by (intro stable_bind stable_read readonly_read stable_mapM readonly_mapM) simp_all

lemma readonly_avatar_value [simp]: "readonly (avatar_value_h a)"
  by (auto simp: avatar_value_h_def intro!: readonly_bind split: prod.splits)

lemma stable_avatar_value [simp]: "stable (avatar_value_h a)"
  unfolding avatar_value_h_def
  by (intro stable_bind stable_read readonly_read) (simp_all split: prod.splits add: stable_bind readonly_bind)

lemma stable_entry [simp]:
  "stable (case d of (c, t) \<Rightarrow> h_bind (tile_value_h t) (\<lambda>v. h_return (c, v)))"
  "readonly (case d of (c, t) \<Rightarrow> h_bind (tile_value_h t) (\<lambda>v. h_return (c, v)))"
  "stable (case e of (pid, a) \<Rightarrow> h_bind (avatar_value_h a) (\<lambda>v. h_return (pid, v)))"
  "readonly (case e of (pid, a) \<Rightarrow> h_bind (avatar_value_h a) (\<lambda>v. h_return (pid, v)))"
  by (simp_all split: prod.splits add: stable_bind readonly_bind)

lemma stable_boardState_value [simp]: "stable (boardState_value_h st)"
  unfolding boardState_value_h_def
  by (intro stable_bind stable_read readonly_read)
     (simp_all split: prod.splits add: stable_bind readonly_bind stable_mapM readonly_mapM)

lemma stable_player_value [simp]: "stable (player_value_h pl)"
  unfolding player_value_h_def
  by (intro stable_bind stable_mapM readonly_mapM) simp_all

text \<open>
  Claim C6. Let \<open>h'\<close> be the store after any of the rule checker's queries
  (\<open>canTakeAction\<close>, \<open>checkPlacementLegality\<close>, \<open>checkPlacementValidity\<close>,
  \<open>checkHandValidity\<close>, \<open>canPlaceAvatar\<close>) run on the store \<open>h\<close>. Then every
  object of \<open>h\<close> is unchanged in \<open>h'\<close>; in particular the board state passed in (its
  tile mapping and its avatar mapping) and the player's hand have the values they had
  before the call. Every placement is simulated on the copy that \<open>BoardState.copy\<close>
  allocates, and \<open>placeTile\<close> overwrites only the objects of that copy.
\<close>

theorem rule_checker_leaves_board_and_hand:
  assumes "h' = snd (canTakeAction_h st tp pl h) \<or>
           h' = snd (checkPlacementLegality_h st tp pl h) \<or>
           h' = snd (checkPlacementValidity_h st tp pl h) \<or>
           h' = snd (checkHandValidity_h st tp pl h) \<or>
           h' = snd (canPlaceAvatar_h st playerId c t p h)"
  shows "unchanged h h' \<and>
         (fst (boardState_value_h st h) = Inr s \<longrightarrow> fst (boardState_value_h st h') = Inr s) \<and>
         (fst (player_value_h pl h) = Inr v \<longrightarrow> fst (player_value_h pl h') = Inr v)"
proof -
  have u: "unchanged h h'"
    using assms extends_canTakeAction [of st tp pl] extends_checkPlacementLegality [of st tp pl]
      extends_checkPlacementValidity [of st tp pl] extends_checkHandValidity [of st tp pl]
      extends_canPlaceAvatar [of st playerId c t p]
    by (auto simp: extends_def)
  show ?thesis
    using u stable_D0 [OF stable_boardState_value u] stable_D0 [OF stable_player_value u]
    by simp
qed

text \<open>
  On the example store \<open>canTakeAction\<close> accepts the placement; afterwards the board
  state and the player read as before, while the avatar of the last board copy (avatar
  1) has been moved onto the placed tile.
\<close>

theorem rule_checker_leaves_board_and_hand_witness:
  "fst (canTakeAction_h 0 example_placement example_player example_heap) = Inr True \<and>
   fst (boardState_value_h 0 example_heap) = Inr board_facing_east \<and>
   fst (boardState_value_h 0
          (snd (canTakeAction_h 0 example_placement example_player example_heap)))
     = Inr board_facing_east \<and>
   fst (player_value_h example_player
          (snd (canTakeAction_h 0 example_placement example_player example_heap)))
     = Inr player_one \<and>
   fst (avatar_value_h 1
          (snd (canTakeAction_h 0 example_placement example_player example_heap)))
     = Inr \<lparr>av_coords = \<lparr>x = 1, y = 0\<rparr>, av_position = port_at EAST 0\<rparr>"
proof -
  let ?h' = "snd (canTakeAction_h 0 example_placement example_player example_heap)"
  have a: "fst (canTakeAction_h 0 example_placement example_player example_heap) = Inr True"
    by code_simp
  have b: "fst (boardState_value_h 0 example_heap) = Inr board_facing_east"
    by code_simp
  have c: "fst (player_value_h example_player example_heap) = Inr player_one"
    by code_simp
  have d: "fst (avatar_value_h 1 ?h')
             = Inr \<lparr>av_coords = \<lparr>x = 1, y = 0\<rparr>, av_position = port_at EAST 0\<rparr>"
    by code_simp
  have "fst (boardState_value_h 0 ?h') = Inr board_facing_east"
    and "fst (player_value_h example_player ?h') = Inr player_one"
    using rule_checker_leaves_board_and_hand
      [of ?h' 0 example_placement example_player example_heap _ _ _ _
        board_facing_east player_one] b c
    by simp_all
  with a b d show ?thesis by simp
qed

end
